theory Spec2Isabelle
  imports
    Complex_Main
    "HOL-Library.AList"
    "HOL-Library.Char_ord"
    "HOL-Library.List_Lexorder"
    "HOL-Library.Sublist"
begin

section \<open>Strings of the JavaScript runtime\<close>

text \<open>
  Document text, paths and keywords are modelled as \<^typ>\<open>string\<close>, one
  \<^typ>\<open>char\<close> per UTF-8 byte. On ASCII text this is the JavaScript string itself and
  its length is the value of \<^verbatim>\<open>Buffer.byteLength(content, 'utf8')\<close>. The character
  classes below are the ASCII part of the ECMAScript classes; a byte above 127 belongs to
  none of them.
\<close>

text \<open>
  A character is its eight bits, least significant first. The letters \<open>A\<close> to \<open>Z\<close> are the
  codes 65 to 90: bits 7 to 5 are \<open>010\<close> and the low five bits are a number from 1 to 26
  (not zero, and not 27 or more: 27 to 31 have bits 4 and 3 set and one of bit 2, or bits
  1 and 0). The letters \<open>a\<close> to \<open>z\<close> are the same with bit 5 set.
\<close>

definition letter_bits :: "bool \<Rightarrow> bool \<Rightarrow> bool \<Rightarrow> bool \<Rightarrow> bool \<Rightarrow> bool" where
  "letter_bits b0 b1 b2 b3 b4 = ((b0 \<or> b1 \<or> b2 \<or> b3 \<or> b4) \<and> \<not> (b4 \<and> b3 \<and> (b2 \<or> (b1 \<and> b0))))"

fun is_upper :: "char \<Rightarrow> bool" where
  "is_upper (Char b0 b1 b2 b3 b4 b5 b6 b7) = (\<not> b7 \<and> b6 \<and> \<not> b5 \<and> letter_bits b0 b1 b2 b3 b4)"

fun is_lower :: "char \<Rightarrow> bool" where
  "is_lower (Char b0 b1 b2 b3 b4 b5 b6 b7) = (\<not> b7 \<and> b6 \<and> b5 \<and> letter_bits b0 b1 b2 b3 b4)"

text \<open>The digits are the codes 48 to 57: bits 7 to 4 are \<open>0011\<close> and the low four bits are at most 9.\<close>

fun is_digit :: "char \<Rightarrow> bool" where
  "is_digit (Char b0 b1 b2 b3 b4 b5 b6 b7) = (\<not> b7 \<and> \<not> b6 \<and> b5 \<and> b4 \<and> \<not> (b3 \<and> (b2 \<or> b1)))"

text \<open>White space (\<^verbatim>\<open>\s\<close>) is the space, code 32, and the codes 9 to 13.\<close>

fun is_space :: "char \<Rightarrow> bool" where
  "is_space (Char b0 b1 b2 b3 b4 b5 b6 b7) =
     (\<not> b7 \<and> \<not> b6 \<and> \<not> b4 \<and>
      (if b5 then \<not> b0 \<and> \<not> b1 \<and> \<not> b2 \<and> \<not> b3
       else b3 \<and> (if b2 then \<not> b1 else b0 \<or> b1)))"

text \<open>The line terminators are the line feed, code 10, and the carriage return, code 13.\<close>

fun is_line_terminator :: "char \<Rightarrow> bool" where
  "is_line_terminator (Char b0 b1 b2 b3 b4 b5 b6 b7) =
     (\<not> b7 \<and> \<not> b6 \<and> \<not> b5 \<and> \<not> b4 \<and> b3 \<and> (if b2 then b0 \<and> \<not> b1 else b1 \<and> \<not> b0))"

text \<open>A word character (\<^verbatim>\<open>\w\<close>) is a letter, a digit or the underscore.\<close>

definition is_word_char :: "char \<Rightarrow> bool" where
  "is_word_char c = (is_upper c \<or> is_lower c \<or> is_digit c \<or> c = CHR ''_'')"

text \<open>Changing the case of a letter sets or clears bit 5; other characters stay.\<close>

fun lower_char :: "char \<Rightarrow> char" where
  "lower_char (Char b0 b1 b2 b3 b4 b5 b6 b7) =
     (if is_upper (Char b0 b1 b2 b3 b4 b5 b6 b7) then Char b0 b1 b2 b3 b4 True b6 b7
      else Char b0 b1 b2 b3 b4 b5 b6 b7)"

fun upper_char :: "char \<Rightarrow> char" where
  "upper_char (Char b0 b1 b2 b3 b4 b5 b6 b7) =
     (if is_lower (Char b0 b1 b2 b3 b4 b5 b6 b7) then Char b0 b1 b2 b3 b4 False b6 b7
      else Char b0 b1 b2 b3 b4 b5 b6 b7)"

definition toLowerCase :: "string \<Rightarrow> string" where
  "toLowerCase s = map lower_char s"

text \<open>\<^verbatim>\<open>s.split(c)\<close> for a one-character separator: always at least one piece.\<close>

fun split_on :: "char \<Rightarrow> string \<Rightarrow> string list" where
  "split_on c [] = [[]]"
| "split_on c (x # xs) =
     (if x = c then [] # split_on c xs
      else (case split_on c xs of [] \<Rightarrow> [[x]] | p # ps \<Rightarrow> (x # p) # ps))"

text \<open>\<^verbatim>\<open>xs.join(sep)\<close>.\<close>

fun join_with :: "string \<Rightarrow> string list \<Rightarrow> string" where
  "join_with sep [] = []"
| "join_with sep [x] = x"
| "join_with sep (x # y # ys) = x @ sep @ join_with sep (y # ys)"

definition startsWith :: "string \<Rightarrow> string \<Rightarrow> bool" where
  "startsWith s p = (take (length p) s = p)"

definition endsWith :: "string \<Rightarrow> string \<Rightarrow> bool" where
  "endsWith s p = (length p \<le> length s \<and> drop (length s - length p) s = p)"

text \<open>\<^verbatim>\<open>s.includes(p)\<close>: \<open>p\<close> occurs in \<open>s\<close> as a contiguous substring.\<close>

fun str_includes :: "string \<Rightarrow> string \<Rightarrow> bool" where
  "str_includes [] p = (p = [])"
| "str_includes (x # xs) p = (startsWith (x # xs) p \<or> str_includes xs p)"

text \<open>\<^verbatim>\<open>s.replace(/\\/g, '/')\<close>: every backslash becomes a slash.\<close>

definition slashes :: "string \<Rightarrow> string" where
  "slashes s = map (\<lambda>c. if c = CHR 0x5C then CHR ''/'' else c) s"

section \<open>Regular expressions\<close>

text \<open>
  The fragment of ECMAScript regular expressions that the program uses, with the
  backtracking semantics of the language: a match attempt at a position yields the
  candidate end positions in priority order (greedy quantifiers try the longest
  repetition first, alternatives are tried left to right), and the first candidate is
  the match.
\<close>

datatype cls =
    Lit char
  | Dot
  | Space
  | Digit
  | OneOf "cls list"
  | NoneOf "cls list"

datatype re =
    Cls cls
  | Bol
  | Eol
  | WordB
  | Seq "re list"
  | Alt "re list"
  | Star re
  | Opt re
  | Group nat re

record flags =
  ignoreCase :: bool
  multiline :: bool

fun cls_match :: "bool \<Rightarrow> cls \<Rightarrow> char \<Rightarrow> bool" where
  "cls_match ci (Lit a) c = (if ci then upper_char a = upper_char c else a = c)"
| "cls_match ci Dot c = (\<not> is_line_terminator c)"
| "cls_match ci Space c = is_space c"
| "cls_match ci Digit c = is_digit c"
| "cls_match ci (OneOf cs) c = list_ex (\<lambda>k. cls_match ci k c) cs"
| "cls_match ci (NoneOf cs) c = (\<not> list_ex (\<lambda>k. cls_match ci k c) cs)"

text \<open>
  A matcher state is a position in the subject string: the index, the character before it
  (if any), the rest of the string from there, and the captures made so far.
\<close>

type_synonym mstate = "nat \<times> char option \<times> string \<times> (nat \<times> string) list"

definition word_before :: "char option \<Rightarrow> bool" where
  "word_before p = (case p of None \<Rightarrow> False | Some c \<Rightarrow> is_word_char c)"

definition word_after :: "string \<Rightarrow> bool" where
  "word_after cs = (case cs of [] \<Rightarrow> False | c # _ \<Rightarrow> is_word_char c)"

definition at_bol :: "flags \<Rightarrow> char option \<Rightarrow> bool" where
  "at_bol f p = (case p of None \<Rightarrow> True | Some c \<Rightarrow> multiline f \<and> is_line_terminator c)"

definition at_eol :: "flags \<Rightarrow> string \<Rightarrow> bool" where
  "at_eol f cs = (case cs of [] \<Rightarrow> True | c # _ \<Rightarrow> multiline f \<and> is_line_terminator c)"

text \<open>
  \<open>ends f r st\<close>: the states at the end of each way \<open>r\<close> matches from the state \<open>st\<close>, in
  backtracking order. An iteration of a quantifier that consumes nothing is rejected, as
  the language specifies.
\<close>

function (sequential) ends :: "flags \<Rightarrow> re \<Rightarrow> mstate \<Rightarrow> mstate list" where
  "ends f (Cls k) (i, p, cs, caps) =
     (case cs of
        [] \<Rightarrow> []
      | c # cs' \<Rightarrow> if cls_match (ignoreCase f) k c then [(Suc i, Some c, cs', caps)] else [])"
| "ends f Bol (i, p, cs, caps) = (if at_bol f p then [(i, p, cs, caps)] else [])"
| "ends f Eol (i, p, cs, caps) = (if at_eol f cs then [(i, p, cs, caps)] else [])"
| "ends f WordB (i, p, cs, caps) =
     (if word_before p \<noteq> word_after cs then [(i, p, cs, caps)] else [])"
| "ends f (Seq []) st = [st]"
| "ends f (Seq (r # rs)) st = concat (map (ends f (Seq rs)) (ends f r st))"
| "ends f (Alt rs) st = concat (map (\<lambda>r. ends f r st) rs)"
| "ends f (Star r) (i, p, cs, caps) =
     concat (map (\<lambda>st'. if length (fst (snd (snd st'))) < length cs
                          then ends f (Star r) st' else [])
                 (ends f r (i, p, cs, caps))) @ [(i, p, cs, caps)]"
| "ends f (Opt r) st = ends f r st @ [st]"
| "ends f (Group n r) (i, p, cs, caps) =
     map (\<lambda>(j, p', cs', caps'). (j, p', cs', AList.update n (take (j - i) cs) caps'))
         (ends f r (i, p, cs, caps))"
  by pat_completeness auto
termination
  by (relation "measures [\<lambda>(f, r, st). size r, \<lambda>(f, r, i, p, cs, caps). length cs]")
     (auto simp: less_Suc_eq_le size_list_estimation')

text \<open>\<^verbatim>\<open>r+\<close> is one \<open>r\<close> followed by \<^verbatim>\<open>r*\<close>.\<close>

definition Plus :: "re \<Rightarrow> re" where
  "Plus r = Seq [r, Star r]"

text \<open>
  \<^verbatim>\<open>regex.exec\<close> from a position: the first position at or after it where the pattern
  matches, paired with the state at the end of the match.
\<close>

fun search :: "flags \<Rightarrow> re \<Rightarrow> nat \<Rightarrow> char option \<Rightarrow> string \<Rightarrow> (nat \<times> mstate) option" where
  "search f r i p [] =
     (case ends f r (i, p, [], []) of m # _ \<Rightarrow> Some (i, m) | [] \<Rightarrow> None)"
| "search f r i p (c # cs) =
     (case ends f r (i, p, c # cs, []) of
        m # _ \<Rightarrow> Some (i, m)
      | [] \<Rightarrow> search f r (Suc i) (Some c) cs)"

text \<open>
  All matches of a global pattern, left to right, each search starting where the last match
  ended (one character further after an empty match, and nowhere once that passes the end
  of the string). \<open>n\<close> bounds the number of matches: there is at most one per position.
\<close>

fun matches_from :: "flags \<Rightarrow> re \<Rightarrow> nat \<Rightarrow> nat \<Rightarrow> char option \<Rightarrow> string \<Rightarrow> (nat \<times> mstate) list" where
  "matches_from f r 0 i p cs = []"
| "matches_from f r (Suc n) i p cs =
     (case search f r i p cs of
        None \<Rightarrow> []
      | Some (b, (e, p', cs', caps)) \<Rightarrow>
          (b, (e, p', cs', caps)) #
          (if b < e then matches_from f r n e p' cs'
           else (case cs' of
                   [] \<Rightarrow> []
                 | c # cs'' \<Rightarrow> matches_from f r n (Suc e) (Some c) cs'')))"

definition match_all :: "flags \<Rightarrow> re \<Rightarrow> string \<Rightarrow> (nat \<times> mstate) list" where
  "match_all f r s = matches_from f r (Suc (length s)) 0 None s"

text \<open>\<^verbatim>\<open>(s.match(/r/g) ?? []).length\<close>.\<close>

definition count_matches :: "flags \<Rightarrow> re \<Rightarrow> string \<Rightarrow> nat" where
  "count_matches f r s = length (match_all f r s)"

definition lit :: "string \<Rightarrow> re" where
  "lit w = Seq (map (\<lambda>c. Cls (Lit c)) w)"

text \<open>
  \<^verbatim>\<open>new RegExp(`\\b${escapeRegExp(w)}\\b`, 'gi')\<close>: \<^verbatim>\<open>escapeRegExp\<close> puts a backslash
  before each special character, so the pattern matches \<open>w\<close> literally, between two word
  boundaries.
\<close>

definition word_re :: "string \<Rightarrow> re" where
  "word_re w = Seq [WordB, lit w, WordB]"

definition flags_g :: flags where
  "flags_g = \<lparr>ignoreCase = False, multiline = False\<rparr>"

definition flags_gi :: flags where
  "flags_gi = \<lparr>ignoreCase = True, multiline = False\<rparr>"

definition flags_gm :: flags where
  "flags_gm = \<lparr>ignoreCase = False, multiline = True\<rparr>"

definition flags_gim :: flags where
  "flags_gim = \<lparr>ignoreCase = True, multiline = True\<rparr>"

section \<open>The platform: Node's path module and the file system\<close>

text \<open>
  The program calls \<^verbatim>\<open>path.relative\<close>, \<^verbatim>\<open>path.resolve\<close>, \<^verbatim>\<open>path.dirname\<close>,
  \<^verbatim>\<open>path.basename\<close>, \<^verbatim>\<open>path.join\<close> of the Node runtime, and reads the file system through
  \<^verbatim>\<open>findMarkdownFiles\<close>, \<^verbatim>\<open>readFile\<close> and \<^verbatim>\<open>pathExists\<close>. They are the parameters of the
  model, gathered in one record; the theorems hold for every platform. \<^verbatim>\<open>readFile\<close>
  rejects for an unreadable file: that is the value \<open>None\<close>.
\<close>

record platform =
  relative :: "string \<Rightarrow> string \<Rightarrow> string"
  resolve :: "string \<Rightarrow> string \<Rightarrow> string"
  dirname :: "string \<Rightarrow> string"
  basename :: "string \<Rightarrow> string \<Rightarrow> string"
  join :: "string \<Rightarrow> string \<Rightarrow> string"
  findMarkdownFiles :: "string \<Rightarrow> string list"
  readFile :: "string \<Rightarrow> string option"
  pathExists :: "string \<Rightarrow> bool"

section \<open>Domain registry (core/domains/constants.ts)\<close>

type_synonym Domain = string

definition DOMAINS :: "Domain list" where
  "DOMAINS =
    [''agents'', ''api'', ''architecture'', ''backups'', ''database'', ''devops'',
     ''features'', ''plans'', ''procedures'', ''quickstart'', ''security'', ''standards'',
     ''testing'', ''troubleshooting'', ''workflows'']"

text \<open>The \<^verbatim>\<open>keywords\<close> field of each entry of \<^verbatim>\<open>DOMAIN_DEFINITIONS\<close>.\<close>

definition DOMAIN_DEFINITIONS :: "(Domain \<times> string list) list" where
  "DOMAIN_DEFINITIONS =
    [(''security'',
       [''security'', ''auth'', ''authentication'', ''authorization'', ''oauth'', ''jwt'',
        ''keycloak'', ''vault'', ''secrets'', ''rls'', ''row-level-security'', ''rbac'',
        ''permissions'', ''access-control'', ''encryption'', ''ssl'', ''tls'', ''certificate'']),
     (''devops'',
       [''devops'', ''deployment'', ''deploy'', ''ci'', ''cd'', ''ci/cd'', ''pipeline'',
        ''docker'', ''container'', ''kubernetes'', ''k8s'', ''infrastructure'', ''terraform'',
        ''ansible'', ''aws'', ''gcp'', ''azure'', ''cloud'', ''environment'', ''production'',
        ''staging'', ''development'', ''nginx'', ''load-balancer'', ''monitoring'']),
     (''database'',
       [''database'', ''db'', ''postgres'', ''postgresql'', ''mysql'', ''sql'', ''schema'',
        ''migration'', ''migrations'', ''alembic'', ''query'', ''queries'', ''table'',
        ''index'', ''indexes'', ''rls'', ''procedure'', ''function'', ''trigger'',
        ''transaction'', ''orm'', ''sqlalchemy'', ''prisma'']),
     (''api'',
       [''api'', ''endpoint'', ''endpoints'', ''route'', ''routes'', ''rest'', ''restful'',
        ''graphql'', ''grpc'', ''openapi'', ''swagger'', ''specification'', ''contract'',
        ''request'', ''response'', ''http'', ''fastapi'', ''express'', ''flask'', ''django'']),
     (''standards'',
       [''standard'', ''standards'', ''convention'', ''conventions'', ''pattern'', ''patterns'',
        ''best-practice'', ''best-practices'', ''guideline'', ''guidelines'', ''style'',
        ''style-guide'', ''coding'', ''naming'', ''formatting'', ''linting'', ''rules'']),
     (''testing'',
       [''test'', ''testing'', ''tests'', ''unit'', ''unit-test'', ''integration'',
        ''integration-test'', ''e2e'', ''end-to-end'', ''fixture'', ''fixtures'', ''mock'',
        ''mocking'', ''stub'', ''pytest'', ''jest'', ''vitest'', ''playwright'', ''cypress'',
        ''coverage'', ''tdd'', ''bdd'']),
     (''architecture'',
       [''architecture'', ''design'', ''system'', ''system-design'', ''pattern'', ''patterns'',
        ''microservices'', ''monolith'', ''serverless'', ''event-driven'', ''cqrs'',
        ''ddd'', ''domain-driven'', ''clean-architecture'', ''hexagonal'', ''decision'',
        ''adr'', ''registry'', ''diagram'']),
     (''features'',
       [''feature'', ''features'', ''implementation'', ''guide'', ''how-to'', ''tutorial'',
        ''admin'', ''administration'', ''dashboard'', ''ui'', ''component'', ''module'',
        ''functionality'', ''capability'']),
     (''quickstart'',
       [''quickstart'', ''quick-start'', ''getting-started'', ''setup'', ''install'',
        ''installation'', ''onboarding'', ''developer'', ''dev'', ''workflow'', ''start'',
        ''begin'', ''intro'', ''introduction'', ''new-developer'']),
     (''procedures'',
       [''procedure'', ''procedures'', ''sop'', ''standard-operating-procedure'', ''step'',
        ''steps'', ''operational'', ''operation'', ''operations'', ''runbook'', ''playbook'',
        ''checklist'', ''process'', ''manual'']),
     (''workflows'',
       [''workflow'', ''workflows'', ''process'', ''processes'', ''flow'', ''flowchart'',
        ''sequence'', ''pipeline'', ''automation'', ''automated'', ''multi-step'',
        ''orchestration'', ''state-machine'']),
     (''agents'',
       [''agent'', ''agents'', ''ai'', ''assistant'', ''expert'', ''specialist'', ''llm'',
        ''langchain'', ''rag'', ''retrieval'', ''embedding'', ''vector'', ''prompt'',
        ''orchestration'', ''chain'', ''tool'']),
     (''backups'',
       [''backup'', ''backups'', ''restore'', ''recovery'', ''disaster'', ''disaster-recovery'',
        ''dr'', ''snapshot'', ''archive'', ''retention'', ''replication'', ''failover'']),
     (''troubleshooting'',
       [''troubleshooting'', ''troubleshoot'', ''debug'', ''debugging'', ''issue'', ''issues'',
        ''problem'', ''problems'', ''error'', ''errors'', ''fix'', ''solution'', ''solutions'',
        ''resolve'', ''diagnose'', ''diagnosis'', ''log'', ''logs'', ''faq'']),
     (''plans'',
       [''plan'', ''plans'', ''planning'', ''roadmap'', ''proposal'', ''proposals'', ''rfc'',
        ''design-doc'', ''specification'', ''spec'', ''milestone'', ''timeline'', ''schedule'',
        ''project'', ''initiative''])]"

text \<open>\<^verbatim>\<open>DOMAIN_DEFINITIONS[d].keywords\<close>; every member of \<open>DOMAINS\<close> has an entry.\<close>

definition keywords_of :: "Domain \<Rightarrow> string list" where
  "keywords_of d = (case map_of DOMAIN_DEFINITIONS d of Some ks \<Rightarrow> ks | None \<Rightarrow> [])"

definition isValidDomain :: "string \<Rightarrow> bool" where
  "isValidDomain v = (v \<in> set DOMAINS)"

text \<open>
  \<^verbatim>\<open>getAllKeywords\<close>: a \<^verbatim>\<open>Map\<close> from keyword to the domains that list it. A \<^verbatim>\<open>Map\<close>
  iterates in insertion order and \<^verbatim>\<open>set\<close> on a present key keeps its place, which is
  \<^const>\<open>AList.update\<close> on an association list.
\<close>

definition map_get :: "('k \<times> 'v) list \<Rightarrow> 'k \<Rightarrow> 'v \<Rightarrow> 'v" where
  "map_get m k dflt = (case map_of m k of Some v \<Rightarrow> v | None \<Rightarrow> dflt)"

definition add_keyword :: "Domain \<Rightarrow> string \<Rightarrow> (string \<times> Domain list) list \<Rightarrow> (string \<times> Domain list) list" where
  "add_keyword d kw km = AList.update kw (map_get km kw [] @ [d]) km"

definition getAllKeywords :: "(string \<times> Domain list) list" where
  "getAllKeywords = fold (\<lambda>d km. fold (add_keyword d) (keywords_of d) km) DOMAINS []"

section \<open>Domain detection (core/domains/detector.ts)\<close>

datatype Method = m_path | m_content | m_keywords | m_none

record DomainDetectionResult =
  domain :: "Domain option"
  confidence :: rat
  method' :: Method
  alternativeDomains :: "(Domain \<times> rat) list"

text \<open>JavaScript truthiness of a string that may be \<^verbatim>\<open>null\<close> or \<^verbatim>\<open>undefined\<close>.\<close>

definition truthy :: "string option \<Rightarrow> bool" where
  "truthy v = (case v of None \<Rightarrow> False | Some s \<Rightarrow> s \<noteq> [])"

text \<open>
  The loop over the path segments: the first index \<open>i\<close> whose segment is a non-empty valid
  domain, searched from index \<open>i\<close> on.
\<close>

fun first_domain_part :: "nat \<Rightarrow> string list \<Rightarrow> (nat \<times> Domain) option" where
  "first_domain_part i [] = None"
| "first_domain_part i (part # parts) =
     (if part \<noteq> [] \<and> isValidDomain part then Some (i, part)
      else first_domain_part (Suc i) parts)"

text \<open>The loop over \<open>DOMAINS\<close> for a domain id contained in the file name.\<close>

definition first_domain_in_name :: "string \<Rightarrow> Domain option" where
  "first_domain_in_name fileName = List.find (\<lambda>d. str_includes fileName d) DOMAINS"

text \<open>
  \<^verbatim>\<open>path.relative\<close> throws only for an argument that is not a string, so the \<^verbatim>\<open>catch\<close>
  branch around it is never taken. Confidences are exact rationals: \<open>0.9 - i * 0.1\<close> is
  \<open>9/10 - i/10\<close>.
\<close>

definition detectDomainFromPath :: "platform \<Rightarrow> string \<Rightarrow> string \<Rightarrow> DomainDetectionResult" where
  "detectDomainFromPath P filePath docsRoot =
     (let normalizedPath = slashes filePath;
          normalizedRoot = slashes docsRoot;
          relativePath = slashes (relative P normalizedRoot normalizedPath);
          parts = split_on CHR ''/'' relativePath
      in case first_domain_part 0 parts of
           Some (i, part) \<Rightarrow>
             \<lparr>domain = Some part,
              confidence = (if i = 0 then 1 else 9/10 - of_nat i * (1/10)),
              method' = m_path, alternativeDomains = []\<rparr>
         | None \<Rightarrow>
             (case first_domain_in_name (basename P filePath ''.md'') of
                Some d \<Rightarrow>
                  \<lparr>domain = Some d, confidence = 6/10, method' = m_path, alternativeDomains = []\<rparr>
              | None \<Rightarrow>
                  \<lparr>domain = None, confidence = 0, method' = m_path, alternativeDomains = []\<rparr>))"

text \<open>
  The scores are kept in a \<^verbatim>\<open>Map\<close> (insertion-ordered). \<^verbatim>\<open>Array.prototype.sort\<close> is
  stable, so sorting by decreasing score keeps that order among equal scores.
\<close>

definition add_score :: "nat \<Rightarrow> Domain \<Rightarrow> (Domain \<times> nat) list \<Rightarrow> (Domain \<times> nat) list" where
  "add_score count d sc = AList.update d (map_get sc d 0 + count) sc"

definition score_keyword :: "string \<Rightarrow> string \<times> Domain list \<Rightarrow> (Domain \<times> nat) list \<Rightarrow> (Domain \<times> nat) list" where
  "score_keyword lowerContent e sc =
     (let count = count_matches flags_gi (word_re (fst e)) lowerContent
      in if count > 0 then fold (add_score count) (snd e) sc else sc)"

definition domainScores :: "string \<Rightarrow> (Domain \<times> nat) list" where
  "domainScores c = fold (score_keyword (toLowerCase c)) getAllKeywords []"

definition sort_desc :: "('a \<times> nat) list \<Rightarrow> ('a \<times> nat) list" where
  "sort_desc xs = sort_key (\<lambda>e. - int (snd e)) xs"

definition sortedDomains :: "string \<Rightarrow> (Domain \<times> nat) list" where
  "sortedDomains c = sort_desc (filter (\<lambda>e. snd e > 0) (domainScores c))"

definition content_confidence :: "nat \<Rightarrow> nat \<Rightarrow> rat" where
  "content_confidence maxScore secondScore =
     (let scoreDiff = of_nat maxScore - of_nat secondScore;
          normalizedScore = min (of_nat maxScore / 20) 1;
          scoreDiffFactor = min (scoreDiff / 10) (3/10)
      in min (5/10 + normalizedScore * (3/10) + scoreDiffFactor) (95/100))"

definition detectDomainFromContent :: "string \<Rightarrow> DomainDetectionResult" where
  "detectDomainFromContent c =
     (case sortedDomains c of
        [] \<Rightarrow> \<lparr>domain = None, confidence = 0, method' = m_content, alternativeDomains = []\<rparr>
      | (topDomain, maxScore) # rest \<Rightarrow>
          (let secondScore = (case rest of [] \<Rightarrow> 0 | (_, s) # _ \<Rightarrow> s);
               conf = content_confidence maxScore secondScore
           in \<lparr>domain = Some topDomain, confidence = conf, method' = m_keywords,
               alternativeDomains =
                 map (\<lambda>(d, score). (d, (of_nat score / of_nat maxScore) * conf * (8/10)))
                     (take 3 rest)\<rparr>))"

text \<open>\<open>cont\<close> is the optional \<^verbatim>\<open>content\<close> argument; \<^verbatim>\<open>if (content)\<close> fails for the empty string too.\<close>

definition detectDomain :: "platform \<Rightarrow> string \<Rightarrow> string option \<Rightarrow> string \<Rightarrow> DomainDetectionResult" where
  "detectDomain P filePath cont docsRoot =
     (let pathResult = detectDomainFromPath P filePath docsRoot
      in if truthy (domain pathResult) \<and> confidence pathResult \<ge> 9/10 then pathResult
         else
           (case cont of
              None \<Rightarrow> pathResult
            | Some c \<Rightarrow>
                if c = [] then pathResult
                else
                  (let contentResult = detectDomainFromContent c
                   in case domain pathResult of
                        None \<Rightarrow> contentResult
                      | Some pd \<Rightarrow>
                          if pd = [] then contentResult
                          else if confidence contentResult > confidence pathResult
                          then contentResult
                                 \<lparr>alternativeDomains :=
                                    (pd, confidence pathResult) # alternativeDomains contentResult\<rparr>
                          else pathResult)))"

section \<open>Tier classification (core/domains/classifier.ts)\<close>

datatype Tier = guide | standard | example | reference | admin

definition TIERS :: "Tier list" where
  "TIERS = [guide, standard, example, reference, admin]"

text \<open>The size range is in KB; \<open>headingPatterns\<close> are the patterns as \<^verbatim>\<open>classifyTier\<close> applies them.\<close>

record TierDefinition =
  sizeMin :: nat
  sizeMax :: nat
  indicators :: "string list"
  headingPatterns :: "re list"

text \<open>
  Every heading pattern has the shape \<^verbatim>\<open>/^#+\s*(a|b|...)/i\<close>; \<^verbatim>\<open>classifyTier\<close> rebuilds
  it from its source with the flags \<^verbatim>\<open>gim\<close>.
\<close>

definition heading :: "re list \<Rightarrow> re" where
  "heading alts = Seq [Bol, Plus (Cls (Lit CHR ''#'')), Star (Cls Space), Group 1 (Alt alts)]"

text \<open>\<^verbatim>\<open>words?\<close>: the word with an optional last letter.\<close>

definition opt_last :: "string \<Rightarrow> re" where
  "opt_last w = Seq [lit (butlast w), Opt (Cls (Lit (last w)))]"

fun TIER_DEFINITIONS :: "Tier \<Rightarrow> TierDefinition" where
  "TIER_DEFINITIONS guide =
     \<lparr>sizeMin = 15, sizeMax = 30,
      indicators =
        [''how to'', ''step by step'', ''tutorial'', ''guide'', ''walkthrough'',
         ''getting started'', ''learn'', ''implement'', ''build'', ''create''],
      headingPatterns =
        [heading [opt_last ''prerequisites'', opt_last ''requirements''],
         heading [Seq [lit ''step'', Star (Cls Space), Plus (Cls Digit)],
                  lit ''first'', lit ''next'', lit ''then'', lit ''finally''],
         heading [lit ''overview'', lit ''introduction'', lit ''getting started''],
         heading [lit ''example'', lit ''demo'', lit ''try it'']]\<rparr>"
| "TIER_DEFINITIONS standard =
     \<lparr>sizeMin = 5, sizeMax = 15,
      indicators =
        [''standard'', ''convention'', ''rule'', ''must'', ''should'', ''must not'',
         ''should not'', ''required'', ''recommended'', ''best practice'', ''guideline''],
      headingPatterns =
        [heading [opt_last ''rules'', opt_last ''guidelines'', opt_last ''conventions''],
         heading [lit ''do'', Seq [lit ''don'', Opt (Cls (Lit (CHR 0x27))), lit ''t''],
                  lit ''avoid'', lit ''prefer''],
         heading [lit ''naming'', lit ''formatting'', lit ''style''],
         heading [lit ''required'', lit ''recommended'', lit ''optional'']]\<rparr>"
| "TIER_DEFINITIONS example =
     \<lparr>sizeMin = 3, sizeMax = 10,
      indicators =
        [''example'', ''sample'', ''template'', ''snippet'', ''code'', ''demo'',
         ''showcase'', ''pattern example'', ''usage example''],
      headingPatterns =
        [heading [lit ''example'', lit ''sample'', lit ''template''],
         heading [lit ''code'', lit ''snippet'', lit ''usage''],
         heading [lit ''input'', lit ''output'', lit ''result'']]\<rparr>"
| "TIER_DEFINITIONS reference =
     \<lparr>sizeMin = 30, sizeMax = 100,
      indicators =
        [''reference'', ''specification'', ''api'', ''complete'', ''comprehensive'',
         ''all'', ''full list'', ''documentation'', ''schema'', ''interface''],
      headingPatterns =
        [heading [lit ''api'', lit ''schema'', lit ''interface'', lit ''type''],
         heading [opt_last ''parameters'', opt_last ''arguments'', opt_last ''options''],
         heading [opt_last ''methods'', opt_last ''functions'', opt_last ''endpoints''],
         heading [lit ''properties'', lit ''fields'', lit ''attributes'']]\<rparr>"
| "TIER_DEFINITIONS admin =
     \<lparr>sizeMin = 10, sizeMax = 20,
      indicators =
        [''admin'', ''administrative'', ''operational'', ''maintenance'', ''ops'',
         ''manage'', ''configure'', ''setup'', ''deployment'', ''monitoring''],
      headingPatterns =
        [heading [lit ''configuration'', lit ''setup'', lit ''installation''],
         heading [lit ''maintenance'', lit ''monitoring'', lit ''logging''],
         heading [lit ''backup'', lit ''restore'', lit ''recovery''],
         heading [lit ''troubleshooting'', lit ''debugging'']]\<rparr>"

text \<open>
  The result of \<^verbatim>\<open>classifyTier\<close>. Its \<^verbatim>\<open>reasoning\<close> field, a list of messages for the
  reader, is not modelled: nothing else depends on it.
\<close>

record TierClassificationResult =
  tier :: Tier
  tier_confidence :: rat
  scores :: "Tier \<Rightarrow> nat"

text \<open>The first loop: what one tier collects from its indicators, heading patterns and size range.\<close>

definition indicator_score :: "string \<Rightarrow> Tier \<Rightarrow> nat" where
  "indicator_score c t =
     sum_list (map (\<lambda>indicator. count_matches flags_gi (word_re indicator) (toLowerCase c) * 2)
                   (indicators (TIER_DEFINITIONS t)))"

definition heading_score :: "string \<Rightarrow> Tier \<Rightarrow> nat" where
  "heading_score c t =
     sum_list (map (\<lambda>pattern. count_matches flags_gim pattern c * 5)
                   (headingPatterns (TIER_DEFINITIONS t)))"

definition sizeKB :: "string \<Rightarrow> rat" where
  "sizeKB c = of_nat (length c) / 1024"

definition size_score :: "string \<Rightarrow> Tier \<Rightarrow> nat" where
  "size_score c t =
     (if sizeKB c \<ge> of_nat (sizeMin (TIER_DEFINITIONS t)) \<and>
         sizeKB c \<le> of_nat (sizeMax (TIER_DEFINITIONS t))
      then 10 else 0)"

definition score_tier :: "string \<Rightarrow> Tier \<Rightarrow> (Tier \<Rightarrow> nat) \<Rightarrow> (Tier \<Rightarrow> nat)" where
  "score_tier c t sc = sc(t := sc t + indicator_score c t + heading_score c t + size_score c t)"

text \<open>The additional heuristics, each adjusting the scores once.\<close>

definition line_count :: "string \<Rightarrow> nat" where
  "line_count c = length (split_on (CHR 0x0A) c)"

definition codeRatio :: "string \<Rightarrow> rat" where
  "codeRatio c =
     (of_nat (count_matches flags_g (lit [CHR 0x60, CHR 0x60, CHR 0x60]) c) / 2) /
     (of_nat (line_count c) / 50)"

definition listItems :: "string \<Rightarrow> nat" where
  "listItems c =
     count_matches flags_gm
       (Seq [Bol, Star (Cls (OneOf [Space])),
             Plus (Cls (OneOf [Lit CHR ''-'', Lit CHR ''*'', Digit, Lit CHR ''.''])),
             Cls Space]) c"

definition tables :: "string \<Rightarrow> nat" where
  "tables c =
     count_matches flags_gm
       (Seq [Bol, Cls (Lit CHR ''|''), Star (Cls Dot), Cls (Lit CHR ''|''), Eol]) c"

definition warnings :: "string \<Rightarrow> nat" where
  "warnings c =
     count_matches flags_gi
       (Seq [Cls (Lit CHR ''>''), Star (Cls Space), lit ''**'',
             Group 1 (Alt [lit ''warning'', lit ''note'', lit ''caution'', lit ''important''])]) c"

definition code_boost :: "string \<Rightarrow> (Tier \<Rightarrow> nat) \<Rightarrow> (Tier \<Rightarrow> nat)" where
  "code_boost c sc = (if codeRatio c > 5/10 then sc(example := sc example + 15) else sc)"

definition list_boost :: "string \<Rightarrow> (Tier \<Rightarrow> nat) \<Rightarrow> (Tier \<Rightarrow> nat)" where
  "list_boost c sc =
     (if of_nat (listItems c) / of_nat (line_count c) > (3/10 :: rat)
      then (sc(guide := sc guide + 10))(standard := sc standard + 8) else sc)"

definition table_boost :: "string \<Rightarrow> (Tier \<Rightarrow> nat) \<Rightarrow> (Tier \<Rightarrow> nat)" where
  "table_boost c sc = (if tables c > 5 then sc(reference := sc reference + 15) else sc)"

definition warning_boost :: "string \<Rightarrow> (Tier \<Rightarrow> nat) \<Rightarrow> (Tier \<Rightarrow> nat)" where
  "warning_boost c sc = (if warnings c > 2 then sc(admin := sc admin + 10) else sc)"

definition tier_scores :: "string \<Rightarrow> Tier \<Rightarrow> nat" where
  "tier_scores c =
     warning_boost c (table_boost c (list_boost c (code_boost c
       (fold (score_tier c) TIERS (\<lambda>_. 0)))))"

text \<open>The loop that finds the winning tier, from \<open>maxScore = 0\<close> and \<open>winningTier = guide\<close>.\<close>

definition winner_step :: "(Tier \<Rightarrow> nat) \<Rightarrow> Tier \<Rightarrow> nat \<times> Tier \<Rightarrow> nat \<times> Tier" where
  "winner_step sc t mw = (if sc t > fst mw then (sc t, t) else mw)"

definition winningTier :: "(Tier \<Rightarrow> nat) \<Rightarrow> Tier" where
  "winningTier sc = snd (fold (winner_step sc) TIERS (0, guide))"

text \<open>\<^verbatim>\<open>Object.values(scores).sort((a, b) => b - a)\<close>: the five scores, largest first.\<close>

definition sortedScores :: "(Tier \<Rightarrow> nat) \<Rightarrow> nat list" where
  "sortedScores sc = rev (sort (map sc TIERS))"

definition tier_confidence_of :: "(Tier \<Rightarrow> nat) \<Rightarrow> rat" where
  "tier_confidence_of sc =
     (let topScore = (case sortedScores sc of [] \<Rightarrow> 0 | a # _ \<Rightarrow> a);
          secondScore = (case sortedScores sc of a # b # _ \<Rightarrow> b | _ \<Rightarrow> 0);
          scoreDiff = of_nat topScore - of_nat secondScore
      in if topScore > 0
         then min (5/10 + (scoreDiff / of_nat topScore) * (3/10) + (of_nat topScore / 100) * (2/10))
                  (95/100)
         else 5/10)"

definition classifyTier :: "string \<Rightarrow> TierClassificationResult" where
  "classifyTier c =
     \<lparr>tier = winningTier (tier_scores c),
      tier_confidence = tier_confidence_of (tier_scores c),
      scores = tier_scores c\<rparr>"

section \<open>Link extraction (utils/markdown.ts)\<close>

record MarkdownLink =
  ml_text :: string
  url :: string
  title :: "string option"
  isInternal :: bool
  lineNumber :: nat
  startIndex :: nat
  endIndex :: nat

text \<open>\<^verbatim>\<open>/\[([^\]]*)\]\(([^)\s]+)(?:\s+"([^"]*)")?\)/g\<close>\<close>

definition linkRegex :: re where
  "linkRegex =
     Seq [Cls (Lit CHR ''[''),
          Group 1 (Star (Cls (NoneOf [Lit CHR '']'']))),
          Cls (Lit CHR '']''),
          Cls (Lit CHR ''(''),
          Group 2 (Plus (Cls (NoneOf [Lit CHR '')'', Space]))),
          Opt (Seq [Plus (Cls Space), Cls (Lit (CHR 0x22)),
                    Group 3 (Star (Cls (NoneOf [Lit (CHR 0x22)]))),
                    Cls (Lit (CHR 0x22))]),
          Cls (Lit CHR '')'')]"

definition url_isInternal :: "string \<Rightarrow> bool" where
  "url_isInternal urlStr =
     (\<not> startsWith urlStr ''http://'' \<and> \<not> startsWith urlStr ''https://'' \<and>
      \<not> startsWith urlStr ''mailto:'' \<and> \<not> startsWith urlStr ''#'')"

text \<open>One match on line number \<open>n\<close> (counted from 1) as a link; \<open>b\<close> and \<open>e\<close> are where it starts and ends.\<close>

definition link_of_match :: "nat \<Rightarrow> nat \<times> mstate \<Rightarrow> MarkdownLink" where
  "link_of_match n m =
     (case m of (b, (e, p, cs, caps)) \<Rightarrow>
        \<lparr>ml_text = map_get caps 1 [],
         url = map_get caps 2 [],
         title = (case map_of caps 3 of None \<Rightarrow> None | Some t \<Rightarrow> if t = [] then None else Some t),
         isInternal = url_isInternal (map_get caps 2 []),
         lineNumber = n,
         startIndex = b,
         endIndex = e\<rparr>)"

text \<open>The lines from line index \<open>i\<close> on.\<close>

fun links_of_lines :: "nat \<Rightarrow> string list \<Rightarrow> MarkdownLink list" where
  "links_of_lines i [] = []"
| "links_of_lines i (line # lines) =
     map (link_of_match (i + 1)) (match_all flags_g linkRegex line) @ links_of_lines (Suc i) lines"

definition extractLinks :: "string \<Rightarrow> MarkdownLink list" where
  "extractLinks c = links_of_lines 0 (split_on (CHR 0x0A) c)"

section \<open>The link graph (core/links/tracker.ts)\<close>

text \<open>The optional \<^verbatim>\<open>title\<close> of a node is never set and is left out.\<close>

record LinkNode =
  node_id :: string
  node_path :: string
  node_domain :: "Domain option"
  inDegree :: nat
  outDegree :: nat

record LinkEdge =
  source :: string
  target :: string
  linkText :: string
  edge_lineNumber :: nat

record LinkGraph =
  nodes :: "LinkNode list"
  edges :: "LinkEdge list"

text \<open>
  While the graph is built, the nodes are in a \<^verbatim>\<open>Map\<close> keyed by relative path (an
  association list in insertion order) and the edges in an array.
\<close>

type_synonym gstate = "(string \<times> LinkNode) list \<times> LinkEdge list"

text \<open>First pass: one node per file.\<close>

definition add_node :: "platform \<Rightarrow> string \<Rightarrow> string \<Rightarrow> (string \<times> LinkNode) list \<Rightarrow> (string \<times> LinkNode) list" where
  "add_node P docsPath file ns =
     (let relPath = relative P docsPath file
      in AList.update relPath
           \<lparr>node_id = relPath, node_path = relPath,
            node_domain = domain (detectDomainFromPath P file docsPath),
            inDegree = 0, outDegree = 0\<rparr> ns)"

text \<open>\<^verbatim>\<open>url.split('#')[0] ?? ''\<close>\<close>

definition path_part :: "string \<Rightarrow> string" where
  "path_part u = (case split_on CHR ''#'' u of [] \<Rightarrow> [] | p # _ \<Rightarrow> p)"

text \<open>
  The target of a link as the graph builder resolves it: relative to the docs root, with
  forward slashes. \<open>None\<close> when the link has no path part (the loop goes on to the next link).
\<close>

definition link_target :: "platform \<Rightarrow> string \<Rightarrow> string \<Rightarrow> MarkdownLink \<Rightarrow> string option" where
  "link_target P docsPath fileDir link =
     (let pathPart = path_part (url link)
      in if pathPart = [] then None
         else Some (slashes (if startsWith pathPart ''/'' then drop 1 pathPart
                             else relative P docsPath (resolve P fileDir pathPart))))"

definition has_key :: "('k \<times> 'v) list \<Rightarrow> 'k \<Rightarrow> bool" where
  "has_key m k = (map_of m k \<noteq> None)"

definition inc_out :: "LinkNode \<Rightarrow> LinkNode" where
  "inc_out n = n\<lparr>outDegree := outDegree n + 1\<rparr>"

definition inc_in :: "LinkNode \<Rightarrow> LinkNode" where
  "inc_in n = n\<lparr>inDegree := inDegree n + 1\<rparr>"

text \<open>Second pass, one link of the file \<open>relPath\<close>: an edge when the target is a node.\<close>

definition add_edge :: "platform \<Rightarrow> string \<Rightarrow> string \<Rightarrow> string \<Rightarrow> MarkdownLink \<Rightarrow> gstate \<Rightarrow> gstate" where
  "add_edge P docsPath relPath fileDir link st =
     (case st of (ns, es) \<Rightarrow>
        if isInternal link then
          (case link_target P docsPath fileDir link of
             None \<Rightarrow> (ns, es)
           | Some targetPath \<Rightarrow>
               if has_key ns targetPath
               then (AList.map_entry targetPath inc_in (AList.map_entry relPath inc_out ns),
                     es @ [\<lparr>source = relPath, target = targetPath, linkText = ml_text link,
                            edge_lineNumber = lineNumber link\<rparr>])
               else (ns, es))
        else (ns, es))"

text \<open>
  Second pass over the files. \<^verbatim>\<open>buildLinkGraph\<close> does not catch a failing \<^verbatim>\<open>readFile\<close>:
  the whole call rejects, which is the result \<open>None\<close>.
\<close>

fun second_pass :: "platform \<Rightarrow> string \<Rightarrow> string list \<Rightarrow> gstate \<Rightarrow> gstate option" where
  "second_pass P docsPath [] st = Some st"
| "second_pass P docsPath (file # files) st =
     (case readFile P file of
        None \<Rightarrow> None
      | Some c \<Rightarrow>
          second_pass P docsPath files
            (fold (add_edge P docsPath (relative P docsPath file) (dirname P file))
                  (extractLinks c) st))"

definition first_pass :: "platform \<Rightarrow> string \<Rightarrow> string list \<Rightarrow> (string \<times> LinkNode) list" where
  "first_pass P docsPath files = fold (add_node P docsPath) files []"

definition buildLinkGraph :: "platform \<Rightarrow> string \<Rightarrow> LinkGraph option" where
  "buildLinkGraph P docsPath =
     (let files = findMarkdownFiles P docsPath
      in case second_pass P docsPath files (first_pass P docsPath files, []) of
           None \<Rightarrow> None
         | Some (ns, es) \<Rightarrow> Some \<lparr>nodes = map snd ns, edges = es\<rparr>)"

text \<open>\<^verbatim>\<open>n.path.split('/').pop() ?? ''\<close>: the last piece.\<close>

definition file_name :: "string \<Rightarrow> string" where
  "file_name p = last (split_on CHR ''/'' p)"

definition is_orphan :: "LinkNode \<Rightarrow> bool" where
  "is_orphan n =
     (inDegree n = 0 \<and> file_name (node_path n) \<notin> set [''INDEX.md'', ''REGISTRY.md'', ''README.md''])"

definition findOrphanFiles :: "platform \<Rightarrow> string \<Rightarrow> string list option" where
  "findOrphanFiles P docsPath =
     (case buildLinkGraph P docsPath of
        None \<Rightarrow> None
      | Some g \<Rightarrow>
          Some (map node_path
                  (filter (\<lambda>n. file_name (node_path n) \<notin> set [''INDEX.md'', ''REGISTRY.md'', ''README.md''])
                          (filter (\<lambda>n. inDegree n = 0) (nodes g)))))"

section \<open>The link checker (core/links/checker.ts)\<close>

record BrokenLink =
  sourceFile :: string
  targetPath :: string
  broken_lineNumber :: nat
  broken_linkText :: string
  reason :: string

record CrossDomainLink =
  cross_sourceFile :: string
  sourceDomain :: "Domain option"
  cross_targetPath :: string
  targetDomain :: "Domain option"
  cross_linkText :: string

record ExternalLink =
  ext_sourceFile :: string
  ext_url :: string
  ext_linkText :: string

text \<open>
  The result of \<^verbatim>\<open>checkLinks\<close>, its \<^verbatim>\<open>stats\<close> flattened into the same record. The
  running \<^verbatim>\<open>domainConnections\<close> map is part of the state; its key
  \<^verbatim>\<open>`${sourceDomain} -> ${targetDomain}`\<close> is modelled as the pair of the two domains.
\<close>

record LinkCheckResult =
  totalFiles :: nat
  totalLinks :: nat
  validLinks :: nat
  brokenLinks :: "BrokenLink list"
  crossDomainLinks :: "CrossDomainLink list"
  externalLinks :: "ExternalLink list"
  stats_internalLinks :: nat
  stats_externalLinks :: nat
  stats_crossDomainLinks :: nat
  stats_brokenPercentage :: rat
  stats_topConnectedDomains :: "((Domain \<times> Domain) \<times> nat) list"
  domainConnections :: "((Domain \<times> Domain) \<times> nat) list"

text \<open>
  The options of \<^verbatim>\<open>checkLinks\<close>. \<^verbatim>\<open>checkExternal\<close> and \<^verbatim>\<open>silent\<close> are left out: the
  first has no effect in the source and the second only switches the log messages off.
\<close>

record LinkCheckOptions =
  opt_docsPath :: string
  opt_domain :: "string option"

definition resolveLink :: "platform \<Rightarrow> string \<Rightarrow> string \<Rightarrow> string \<Rightarrow> string" where
  "resolveLink P linkUrl fileDir docsPath =
     (let pathPart = path_part linkUrl
      in if pathPart = [] then fileDir
         else if startsWith pathPart ''/'' then join P docsPath pathPart
         else resolve P fileDir pathPart)"

definition broken_entry :: "string \<Rightarrow> MarkdownLink \<Rightarrow> BrokenLink" where
  "broken_entry relFile link =
     \<lparr>sourceFile = relFile, targetPath = url link, broken_lineNumber = lineNumber link,
      broken_linkText = ml_text link, reason = ''Target file does not exist''\<rparr>"

text \<open>The body of the loop over the links of one file.\<close>

definition check_link :: "platform \<Rightarrow> string \<Rightarrow> string \<Rightarrow> string \<Rightarrow> string \<Rightarrow> MarkdownLink \<Rightarrow> LinkCheckResult \<Rightarrow> LinkCheckResult" where
  "check_link P docsPath file relFile fileDir link r0 =
     (let r = r0\<lparr>totalLinks := totalLinks r0 + 1\<rparr>
      in if isInternal link then
           (let r1 = r\<lparr>stats_internalLinks := stats_internalLinks r + 1\<rparr>;
                tp = resolveLink P (url link) fileDir docsPath
            in if \<not> pathExists P tp
               then r1\<lparr>brokenLinks := brokenLinks r1 @ [broken_entry relFile link]\<rparr>
               else
                 (let r2 = r1\<lparr>validLinks := validLinks r1 + 1\<rparr>;
                      sd = domain (detectDomainFromPath P file docsPath);
                      td = domain (detectDomainFromPath P tp docsPath)
                  in case (sd, td) of
                       (Some s, Some t) \<Rightarrow>
                         if s \<noteq> [] \<and> t \<noteq> [] \<and> s \<noteq> t
                         then r2\<lparr>stats_crossDomainLinks := stats_crossDomainLinks r2 + 1,
                                 crossDomainLinks := crossDomainLinks r2 @
                                   [\<lparr>cross_sourceFile = relFile, sourceDomain = sd,
                                     cross_targetPath = url link, targetDomain = td,
                                     cross_linkText = ml_text link\<rparr>],
                                 domainConnections :=
                                   AList.update (s, t) (map_get (domainConnections r2) (s, t) 0 + 1)
                                     (domainConnections r2)\<rparr>
                         else r2
                     | _ \<Rightarrow> r2))
         else r\<lparr>stats_externalLinks := stats_externalLinks r + 1,
                externalLinks := externalLinks r @
                  [\<lparr>ext_sourceFile = relFile, ext_url = url link, ext_linkText = ml_text link\<rparr>]\<rparr>)"

text \<open>
  One file: a failing \<^verbatim>\<open>readFile\<close> is caught (and logged), the file contributes nothing
  and the loop goes on.
\<close>

definition check_file :: "platform \<Rightarrow> string \<Rightarrow> string \<Rightarrow> LinkCheckResult \<Rightarrow> LinkCheckResult" where
  "check_file P docsPath file r =
     (case readFile P file of
        None \<Rightarrow> r
      | Some c \<Rightarrow>
          fold (check_link P docsPath file (relative P docsPath file) (dirname P file))
               (extractLinks c) r)"

definition checked_files :: "platform \<Rightarrow> LinkCheckOptions \<Rightarrow> string list" where
  "checked_files P opts =
     (let files = findMarkdownFiles P (opt_docsPath opts)
      in if truthy (opt_domain opts)
         then filter (\<lambda>f. let rel = relative P (opt_docsPath opts) f
                          in startsWith rel (the (opt_domain opts) @ ''/'') \<or>
                             startsWith rel (the (opt_domain opts) @ [CHR 0x5C]))
                     files
         else files)"

definition empty_result :: LinkCheckResult where
  "empty_result =
     \<lparr>totalFiles = 0, totalLinks = 0, validLinks = 0, brokenLinks = [], crossDomainLinks = [],
      externalLinks = [], stats_internalLinks = 0, stats_externalLinks = 0,
      stats_crossDomainLinks = 0, stats_brokenPercentage = 0, stats_topConnectedDomains = [],
      domainConnections = []\<rparr>"

definition checkLinks :: "platform \<Rightarrow> LinkCheckOptions \<Rightarrow> LinkCheckResult" where
  "checkLinks P opts =
     (let files = checked_files P opts;
          r = fold (check_file P (opt_docsPath opts)) files
                (empty_result\<lparr>totalFiles := length files\<rparr>)
      in r\<lparr>stats_brokenPercentage :=
             (if stats_internalLinks r > 0
              then of_nat (length (brokenLinks r)) / of_nat (stats_internalLinks r) * 100
              else 0),
           stats_topConnectedDomains := take 10 (sort_desc (domainConnections r))\<rparr>)"

section \<open>Cycle detection (core/discover/dependencies.ts)\<close>

text \<open>
  The graph is a \<^verbatim>\<open>Map\<close> from a node to the \<^verbatim>\<open>Set\<close> of the nodes it refers to, both in
  insertion order: an association list of lists.
\<close>

type_synonym dgraph = "(string \<times> string list) list"

text \<open>\<^verbatim>\<open>graph.get(node) ?? new Set()\<close>\<close>

definition imports_of :: "dgraph \<Rightarrow> string \<Rightarrow> string list" where
  "imports_of g node = (case map_of g node of None \<Rightarrow> [] | Some xs \<Rightarrow> xs)"

text \<open>The variables the depth-first search shares: \<open>visited\<close>, \<open>recursionStack\<close> and \<open>cycles\<close>.\<close>

record dfs_state =
  visited :: "string set"
  recursionStack :: "string set"
  cycles :: "string list list"

text \<open>\<^verbatim>\<open>path.indexOf(node)\<close>, \<open>None\<close> for \<open>-1\<close>.\<close>

fun index_of :: "string \<Rightarrow> string list \<Rightarrow> nat option" where
  "index_of x [] = None"
| "index_of x (y # ys) = (if x = y then Some 0 else map_option Suc (index_of x ys))"

text \<open>
  \<open>dfs\<close> is the inner function of the source (its boolean result is never used) and
  \<open>dfs_each\<close> the loop over the imports of a node, each call with a copy of \<open>path\<close>.
\<close>

function dfs :: "dgraph \<Rightarrow> string \<Rightarrow> string list \<Rightarrow> dfs_state \<Rightarrow> dfs_state"
  and dfs_each :: "dgraph \<Rightarrow> string list \<Rightarrow> string list \<Rightarrow> dfs_state \<Rightarrow> dfs_state" where
  "dfs g node path st =
     (if node \<in> recursionStack st then
        (case index_of node path of
           None \<Rightarrow> st
         | Some cycleStart \<Rightarrow> st\<lparr>cycles := cycles st @ [drop cycleStart path]\<rparr>)
      else if node \<in> visited st then st
      else
        (let st' = dfs_each g (imports_of g node) (path @ [node])
                     (st\<lparr>visited := insert node (visited st),
                         recursionStack := insert node (recursionStack st)\<rparr>)
         in st'\<lparr>recursionStack := recursionStack st' - {node}\<rparr>))"
| "dfs_each g [] path st = st"
| "dfs_each g (imported # rest) path st = dfs_each g rest path (dfs g imported path st)"
  by pat_completeness auto


lemma dfs_visited_mono:
  "dfs_dfs_each_dom (Inl (g, node, path, st)) \<Longrightarrow> visited st \<subseteq> visited (dfs g node path st)"
  "dfs_dfs_each_dom (Inr (g, xs, path, st)) \<Longrightarrow> visited st \<subseteq> visited (dfs_each g xs path st)"
proof (induction rule: dfs_dfs_each.pinduct)
  case (1 g node path st)
  show ?case
    using 1 by (auto simp: dfs.psimps[OF 1(1)] Let_def split: option.splits)
next
  case (2 g path st)
  show ?case by (simp add: dfs_each.psimps(1)[OF 2(1)])
next
  case (3 g imported rest path st)
  show ?case
    using 3 by (auto simp: dfs_each.psimps(2)[OF 3(1)])
qed

text \<open>Every node the search can reach is a key of the graph or one of the listed imports.\<close>

definition nodes_of :: "dgraph \<Rightarrow> string set" where
  "nodes_of g = set (map fst g) \<union> (\<Union>e \<in> set g. set (snd e))"

lemma imports_of_outside: "node \<notin> nodes_of g \<Longrightarrow> imports_of g node = []"
proof -
  assume a: "node \<notin> nodes_of g"
  have "map_of g node = None"
  proof (cases "map_of g node")
    case None then show ?thesis .
  next
    case (Some xs)
    then have "(node, xs) \<in> set g" by (rule map_of_SomeD)
    then have "node \<in> set (map fst g)" by force
    with a show ?thesis by (simp add: nodes_of_def)
  qed
  then show ?thesis by (simp add: imports_of_def)
qed

termination dfs
proof (relation "inv_image (less_than <*lex*> less_than)
    (\<lambda>x. case x of
       Inl (g, node, path, st) \<Rightarrow> (card (nodes_of g - visited st), 1)
     | Inr (g, xs, path, st) \<Rightarrow> (card (nodes_of g - visited st), 2 * length xs))",
    goal_cases)
  case 1
  show ?case by (intro wf_inv_image wf_lex_prod wf_less_than)
next
  case (2 g node path st)
  have fin: "finite (nodes_of g)" by (simp add: nodes_of_def)
  show ?case
  proof (cases "node \<in> nodes_of g")
    case True
    then have "card (nodes_of g - insert node (visited st)) < card (nodes_of g - visited st)"
      using 2 fin by (intro psubset_card_mono) auto
    then show ?thesis by simp
  next
    case False
    then have "nodes_of g - insert node (visited st) = nodes_of g - visited st" by auto
    then show ?thesis using False by (simp add: imports_of_outside)
  qed
next
  case (3 g imported rest path st)
  show ?case by simp
next
  case (4 g imported rest path st)
  have fin: "finite (nodes_of g)" by (simp add: nodes_of_def)
  have "visited st \<subseteq> visited (dfs g imported path st)"
    using 4 by (rule dfs_visited_mono(1))
  then have "card (nodes_of g - visited (dfs g imported path st)) \<le> card (nodes_of g - visited st)"
    using fin by (intro card_mono) auto
  then show ?case by auto
qed

text \<open>The loop over \<^verbatim>\<open>graph.keys()\<close>: a search from every node not visited yet.\<close>

definition dfs_roots :: "dgraph \<Rightarrow> dfs_state" where
  "dfs_roots g =
     fold (\<lambda>node st. if node \<notin> visited st then dfs g node [] st else st) (map fst g)
       \<lparr>visited = {}, recursionStack = {}, cycles = []\<rparr>"

text \<open>
  \<^verbatim>\<open>[...cycle.files].sort().join('->')\<close>: the default sort compares strings by code units,
  which is the lexicographic order of \<^typ>\<open>string\<close>.
\<close>

definition cycle_key :: "string list \<Rightarrow> string" where
  "cycle_key files = join_with ''->'' (sort files)"

fun dedup :: "string set \<Rightarrow> string list list \<Rightarrow> string list list" where
  "dedup seen [] = []"
| "dedup seen (cycle # rest) =
     (if cycle_key cycle \<notin> seen then cycle # dedup (insert (cycle_key cycle) seen) rest
      else dedup seen rest)"

text \<open>The deduplication loop with its \<open>seen\<close> set, then \<^verbatim>\<open>slice(0, 10)\<close>.\<close>

definition detectCircularDependencies :: "dgraph \<Rightarrow> string list list" where
  "detectCircularDependencies g = take 10 (dedup {} (cycles (dfs_roots g)))"

section \<open>A POSIX platform for the examples\<close>

text \<open>
  The examples and counterexamples below run on the following instance of the platform:
  Node's \<^verbatim>\<open>path.posix\<close> functions, segment by segment, with working directory \<open>cwd\<close>
  (an absolute path), over a file system that holds exactly the listed files (absolute
  path and content).
\<close>

text \<open>\<^verbatim>\<open>normalizeString\<close>: drop empty and \<^verbatim>\<open>.\<close> segments, let \<^verbatim>\<open>..\<close> cancel the segment before it.\<close>

fun norm_segs :: "bool \<Rightarrow> string list \<Rightarrow> string list \<Rightarrow> string list" where
  "norm_segs up acc [] = acc"
| "norm_segs up acc (seg # segs) =
     (if seg = [] \<or> seg = ''.'' then norm_segs up acc segs
      else if seg = ''..'' then
        (if acc \<noteq> [] \<and> last acc \<noteq> ''..'' then norm_segs up (butlast acc) segs
         else if up then norm_segs up (acc @ [seg]) segs
         else norm_segs up acc segs)
      else norm_segs up (acc @ [seg]) segs)"

definition is_absolute :: "string \<Rightarrow> bool" where
  "is_absolute p = (case p of [] \<Rightarrow> False | c # _ \<Rightarrow> c = CHR ''/'')"

text \<open>The segments of \<^verbatim>\<open>path.resolve(a, b)\<close>.\<close>

definition resolved_segs :: "string \<Rightarrow> string \<Rightarrow> string \<Rightarrow> string list" where
  "resolved_segs cwd a b =
     norm_segs False []
       (split_on CHR ''/''
         (if is_absolute b then b
          else if is_absolute a then a @ ''/'' @ b
          else cwd @ ''/'' @ a @ ''/'' @ b))"

definition posix_resolve :: "string \<Rightarrow> string \<Rightarrow> string \<Rightarrow> string" where
  "posix_resolve cwd a b = CHR ''/'' # join_with ''/'' (resolved_segs cwd a b)"

fun strip_common :: "string list \<Rightarrow> string list \<Rightarrow> string list \<times> string list" where
  "strip_common (x # xs) (y # ys) = (if x = y then strip_common xs ys else (x # xs, y # ys))"
| "strip_common xs ys = (xs, ys)"

definition posix_relative :: "string \<Rightarrow> string \<Rightarrow> string \<Rightarrow> string" where
  "posix_relative cwd from to =
     (if from = to then []
      else case strip_common (resolved_segs cwd from []) (resolved_segs cwd to []) of
             (fs, ts) \<Rightarrow> join_with ''/'' (replicate (length fs) ''..'' @ ts))"

definition posix_dirname :: "string \<Rightarrow> string" where
  "posix_dirname p =
     (case p of
        [] \<Rightarrow> ''.''
      | c # cs \<Rightarrow>
          (case dropWhile (\<lambda>x. x \<noteq> CHR ''/'') (dropWhile (\<lambda>x. x = CHR ''/'') (rev cs)) of
             [] \<Rightarrow> (if c = CHR ''/'' then ''/'' else ''.'')
           | _ # r \<Rightarrow> (if c = CHR ''/'' \<and> r = [] then ''//'' else c # rev r)))"

definition posix_basename :: "string \<Rightarrow> string \<Rightarrow> string" where
  "posix_basename p ext =
     (if ext = p then []
      else let base = rev (takeWhile (\<lambda>x. x \<noteq> CHR ''/'') (dropWhile (\<lambda>x. x = CHR ''/'') (rev p)))
           in if ext \<noteq> [] \<and> endsWith base ext \<and> base \<noteq> ext
              then take (length base - length ext) base
              else base)"

definition posix_join :: "string \<Rightarrow> string \<Rightarrow> string" where
  "posix_join a b =
     (let joined = (if a = [] then b else if b = [] then a else a @ ''/'' @ b);
          segs = norm_segs (\<not> is_absolute joined) [] (split_on CHR ''/'' joined);
          body = join_with ''/'' segs
      in if joined = [] then ''.''
         else if is_absolute joined
         then CHR ''/'' # body @ (if body \<noteq> [] \<and> last joined = CHR ''/'' then ''/'' else [])
         else if body = [] then (if last joined = CHR ''/'' then ''./'' else ''.'')
         else body @ (if last joined = CHR ''/'' then ''/'' else []))"

definition posix :: "string \<Rightarrow> (string \<times> string) list \<Rightarrow> platform" where
  "posix cwd files =
     \<lparr>relative = posix_relative cwd,
      resolve = posix_resolve cwd,
      dirname = posix_dirname,
      basename = posix_basename,
      join = posix_join,
      findMarkdownFiles =
        (\<lambda>dir. filter (\<lambda>f. startsWith f (posix_resolve cwd dir [] @ ''/'') \<and> endsWith f ''.md'')
                       (map fst files)),
      readFile = map_of files,
      pathExists = (\<lambda>p. posix_resolve cwd p [] \<in> set (map fst files))\<rparr>"

section \<open>Auxiliary definitions\<close>

text \<open>
  What the loops of the graph builder and of the link checker collect, written as plain list
  expressions, the invariant of the graph builder, and the file systems of the examples.
\<close>



text \<open>
  The invariant of the second pass: the node keys are distinct, every node sits under its own
  path, and its degrees count the edges collected so far that end and start at it.
\<close>

definition degrees_ok :: "(string \<times> LinkNode) list \<Rightarrow> LinkEdge list \<Rightarrow> bool" where
  "degrees_ok ns es =
     (distinct (map fst ns) \<and>
      list_all (\<lambda>kn. node_path (snd kn) = fst kn \<and>
                 inDegree (snd kn) = length (filter (\<lambda>e. target e = fst kn) es) \<and>
                 outDegree (snd kn) = length (filter (\<lambda>e. source e = fst kn) es)) ns)"

text \<open>A link is broken when it is internal and its resolved target does not exist.\<close>

definition link_broken :: "platform \<Rightarrow> string \<Rightarrow> string \<Rightarrow> MarkdownLink \<Rightarrow> bool" where
  "link_broken P docsPath fileDir link =
     (isInternal link \<and> \<not> pathExists P (resolveLink P (url link) fileDir docsPath))"

text \<open>The broken-link entries of one file, in the order of its links; none for an unreadable file.\<close>

definition file_broken :: "platform \<Rightarrow> string \<Rightarrow> string \<Rightarrow> BrokenLink list" where
  "file_broken P docsPath fl =
     (case readFile P fl of
        None \<Rightarrow> []
      | Some c \<Rightarrow>
          map (broken_entry (relative P docsPath fl))
              (filter (link_broken P docsPath (dirname P fl)) (extractLinks c)))"

text \<open>A corpus of two documents; the first links to the second and to a file that does not exist.\<close>

definition graph_demo :: "(string \<times> string) list" where
  "graph_demo =
     [(''/docs/security/auth.md'',
        ''authentication OAuth2 JWT token [API](../api/ref.md) and [x](../missing/file.md)''),
      (''/docs/api/ref.md'', ''# API'')]"

text \<open>Two documents that link to each other.\<close>

definition cycle_demo :: "(string \<times> string) list" where
  "cycle_demo =
     [(''/docs/a.md'', ''see [B](b.md)''),
      (''/docs/b.md'', ''back to [A](./a.md#top)'')]"

text \<open>A hub \<open>h\<close> that refers to eleven nodes, each of which refers back: eleven cycles.\<close>

definition hub :: dgraph where
  "hub =
     [(''h'', [''a'', ''b'', ''c'', ''d'', ''e'', ''f'', ''g'', ''i'', ''j'', ''k'', ''l'']),
      (''a'', [''h'']), (''b'', [''h'']), (''c'', [''h'']), (''d'', [''h'']), (''e'', [''h'']),
      (''f'', [''h'']), (''g'', [''h'']), (''i'', [''h'']), (''j'', [''h'']), (''k'', [''h'']),
      (''l'', [''h''])]"

section \<open>Properties of domain detection\<close>

subsection \<open>The path phase\<close>

lemma first_domain_part_index:
  assumes "d < length parts" "parts ! d \<noteq> []" "isValidDomain (parts ! d)"
      and "\<forall>j<d. \<not> (parts ! j \<noteq> [] \<and> isValidDomain (parts ! j))"
  shows "first_domain_part i parts = Some (i + d, parts ! d)"
  using assms
proof (induction parts arbitrary: i d)
  case Nil
  then show ?case by simp
next
  case (Cons p ps)
  show ?case
  proof (cases d)
    case 0
    with Cons.prems show ?thesis by simp
  next
    case (Suc d')
    from Cons.prems(4) Suc have hd: "\<not> (p \<noteq> [] \<and> isValidDomain p)" by auto
    have "first_domain_part (Suc i) ps = Some (Suc i + d', ps ! d')"
    proof (rule Cons.IH)
      show "d' < length ps" using Cons.prems(1) Suc by simp
      show "ps ! d' \<noteq> []" using Cons.prems(2) Suc by simp
      show "isValidDomain (ps ! d')" using Cons.prems(3) Suc by simp
      show "\<forall>j<d'. \<not> (ps ! j \<noteq> [] \<and> isValidDomain (ps ! j))"
        using Cons.prems(4) Suc by auto
    qed
    with hd Suc show ?thesis by simp
  qed
qed

lemma valid_nonempty: "isValidDomain v \<Longrightarrow> v \<noteq> []"
  by (auto simp: isValidDomain_def DOMAINS_def)

lemma first_domain_part_valid:
  "first_domain_part i parts = Some (k, part) \<Longrightarrow> isValidDomain part"
  by (induction parts arbitrary: i) (auto split: if_splits)

lemma first_domain_in_name_valid:
  "first_domain_in_name n = Some d \<Longrightarrow> isValidDomain d"
  by (auto simp: first_domain_in_name_def isValidDomain_def find_Some_iff)

lemma detectDomainFromPath_valid:
  "domain (detectDomainFromPath P filePath docsRoot) = Some pd \<Longrightarrow> isValidDomain pd"
  by (auto simp: detectDomainFromPath_def Let_def
           dest: first_domain_part_valid first_domain_in_name_valid
           split: option.splits prod.splits)

lemma detectDomainFromPath_none:
  "domain (detectDomainFromPath P filePath docsRoot) = None \<Longrightarrow>
     detectDomainFromPath P filePath docsRoot =
       \<lparr>domain = None, confidence = 0, method' = m_path, alternativeDomains = []\<rparr>"
  by (auto simp: detectDomainFromPath_def Let_def split: option.splits prod.splits)

lemma detectDomainFromPath_alternatives:
  "alternativeDomains (detectDomainFromPath P filePath docsRoot) = []"
  by (auto simp: detectDomainFromPath_def Let_def split: option.splits prod.splits)

text \<open>
  Claim C2. Let \<open>parts\<close> be the segments of the path relative to the docs root. If the first
  segment that is a registered domain id stands at index \<open>d\<close>, the path phase yields that
  domain, with confidence 1 when \<open>d = 0\<close> and \<open>0.9 - 0.1 * d\<close> when \<open>d > 0\<close>; and when
  \<open>d = 0\<close>, \<open>detectDomain\<close> returns that domain with confidence exactly 1 whatever content is
  supplied (or none).
\<close>

theorem detectDomain_path_phase:
  assumes parts: "parts = split_on CHR ''/'' (slashes (relative P (slashes docsRoot) (slashes filePath)))"
      and d: "d < length parts" "isValidDomain (parts ! d)"
      and first: "\<forall>j<d. \<not> isValidDomain (parts ! j)"
  shows "domain (detectDomainFromPath P filePath docsRoot) = Some (parts ! d) \<and>
         confidence (detectDomainFromPath P filePath docsRoot) =
           (if d = 0 then 1 else 9/10 - of_nat d * (1/10)) \<and>
         (d = 0 \<longrightarrow>
            detectDomain P filePath cont docsRoot =
              \<lparr>domain = Some (parts ! 0), confidence = 1, method' = m_path,
               alternativeDomains = []\<rparr>)"
proof -
  have ne: "parts ! d \<noteq> []" using d(2) by (rule valid_nonempty)
  have "first_domain_part 0 parts = Some (0 + d, parts ! d)"
    using d ne first by (intro first_domain_part_index) auto
  then have fp: "first_domain_part 0
        (split_on CHR ''/'' (slashes (relative P (slashes docsRoot) (slashes filePath)))) =
      Some (d, parts ! d)"
    using parts by simp
  have r: "detectDomainFromPath P filePath docsRoot =
        \<lparr>domain = Some (parts ! d),
         confidence = (if d = 0 then 1 else 9/10 - of_nat d * (1/10)),
         method' = m_path, alternativeDomains = []\<rparr>"
    unfolding detectDomainFromPath_def Let_def fp by simp
  show ?thesis
    using ne by (auto simp: r detectDomain_def truthy_def Let_def)
qed

lemma example_parts_0:
  "split_on CHR ''/'' (slashes (relative (posix ''/w'' []) (slashes ''.documentation'')
      (slashes ''.documentation/security/auth.md''))) = [''security'', ''auth.md'']"
  by code_simp

lemma example_parts_1:
  "split_on CHR ''/'' (slashes (relative (posix ''/w'' []) (slashes ''.'')
      (slashes ''guides/api/notes.md''))) = [''guides'', ''api'', ''notes.md'']"
  by code_simp

lemma example_valid: "isValidDomain ''security''" "isValidDomain ''api''" "\<not> isValidDomain ''guides''"
  by code_simp+

theorem detectDomain_path_phase_witness:
  "detectDomain (posix ''/w'' []) ''.documentation/security/auth.md''
       (Some ''database schema and sql queries'') ''.documentation'' =
     \<lparr>domain = Some ''security'', confidence = 1, method' = m_path, alternativeDomains = []\<rparr> \<and>
   domain (detectDomainFromPath (posix ''/w'' []) ''guides/api/notes.md'' ''.'') = Some ''api'' \<and>
   confidence (detectDomainFromPath (posix ''/w'' []) ''guides/api/notes.md'' ''.'') = 8/10"
proof -
  have a: "detectDomain (posix ''/w'' []) ''.documentation/security/auth.md''
       (Some ''database schema and sql queries'') ''.documentation'' =
     \<lparr>domain = Some ''security'', confidence = 1, method' = m_path, alternativeDomains = []\<rparr>"
    using detectDomain_path_phase [OF example_parts_0 [symmetric], of 0]
    by (simp add: example_valid)
  have b: "domain (detectDomainFromPath (posix ''/w'' []) ''guides/api/notes.md'' ''.'') = Some ''api'' \<and>
     confidence (detectDomainFromPath (posix ''/w'' []) ''guides/api/notes.md'' ''.'') = 8/10"
    using detectDomain_path_phase [OF example_parts_1 [symmetric], of 1]
    by (simp add: example_valid)
  from a b show ?thesis by simp
qed

text \<open>
  Claim C3 (the confidence lies in \<open>[0, 1]\<close>) fails on the code: a domain folder at depth 10
  gets the confidence \<open>0.9 - 10 * 0.1\<close>, which is negative, and with no content supplied
  \<open>detectDomain\<close> returns the path result as it is.
\<close>

theorem detectDomain_confidence_negative:
  "detectDomain (posix ''/w'' []) ''a/b/c/d/e/f/g/h/i/j/api/x.md'' None ''.'' =
     \<lparr>domain = Some ''api'', confidence = - (1/10), method' = m_path, alternativeDomains = []\<rparr>"
  by code_simp

subsection \<open>The content phase\<close>

lemma map_get_add_keyword:
  "map_get (add_keyword d kw km) k [] = (if k = kw then map_get km k [] @ [d] else map_get km k [])"
  by (simp add: map_get_def add_keyword_def update_conv')

lemma map_get_fold_add_keyword:
  "map_get (fold (add_keyword d) kws km) k [] = map_get km k [] @ replicate (count_list kws k) d"
  by (induction kws arbitrary: km) (auto simp: map_get_add_keyword replicate_app_Cons_same)

lemma map_get_fold_domains:
  "map_get (fold (\<lambda>d km. fold (add_keyword d) (kwf d) km) ds km) k [] =
     map_get km k [] @ concat (map (\<lambda>d. replicate (count_list (kwf d) k) d) ds)"
  by (induction ds arbitrary: km) (auto simp: map_get_fold_add_keyword)

lemma map_get_getAllKeywords:
  "map_get getAllKeywords k [] =
     concat (map (\<lambda>d. replicate (count_list (keywords_of d) k) d) DOMAINS)"
  unfolding getAllKeywords_def map_get_fold_domains by (simp add: map_get_def)

lemma distinct_add_keyword:
  "distinct (map fst km) \<Longrightarrow> distinct (map fst (add_keyword d kw km))"
  by (simp add: add_keyword_def distinct_update)

lemma distinct_fold_add_keyword:
  "distinct (map fst km) \<Longrightarrow> distinct (map fst (fold (add_keyword d) kws km))"
  by (induction kws arbitrary: km) (auto simp: distinct_add_keyword)

lemma distinct_fold_domains:
  "distinct (map fst km) \<Longrightarrow>
     distinct (map fst (fold (\<lambda>d km. fold (add_keyword d) (kwf d) km) ds km))"
  by (induction ds arbitrary: km) (auto simp: distinct_fold_add_keyword)

lemma distinct_getAllKeywords: "distinct (map fst getAllKeywords)"
  by (simp add: getAllKeywords_def distinct_fold_domains)

lemma keys_add_keyword: "fst ` set (add_keyword d kw km) = insert kw (fst ` set km)"
  by (simp add: add_keyword_def dom_update)

lemma keys_fold_add_keyword:
  "fst ` set (fold (add_keyword d) kws km) = set kws \<union> fst ` set km"
  by (induction kws arbitrary: km) (auto simp: keys_add_keyword)

lemma keys_fold_domains:
  "fst ` set (fold (\<lambda>d km. fold (add_keyword d) (kwf d) km) ds km) =
     (\<Union>d \<in> set ds. set (kwf d)) \<union> fst ` set km"
  by (induction ds arbitrary: km) (auto simp: keys_fold_add_keyword)

lemma keys_getAllKeywords:
  "fst ` set getAllKeywords = set (concat (map keywords_of DOMAINS))"
  by (simp add: getAllKeywords_def keys_fold_domains)

lemma fold_score_keyword_single:
  assumes "distinct (map fst km)"
      and "\<forall>e \<in> set km. fst e \<noteq> kw0 \<longrightarrow> count_matches flags_gi (word_re (fst e)) lc = 0"
  shows "fold (score_keyword lc) km sc =
           (if kw0 \<in> fst ` set km \<and> count_matches flags_gi (word_re kw0) lc > 0
            then fold (add_score (count_matches flags_gi (word_re kw0) lc)) (map_get km kw0 []) sc
            else sc)"
  using assms
proof (induction km arbitrary: sc)
  case Nil
  then show ?case by simp
next
  case (Cons e km)
  obtain k ds where e: "e = (k, ds)" by (cases e)
  have dist: "distinct (map fst km)" and knotin: "k \<notin> fst ` set km"
    using Cons.prems(1) e by auto
  have rest: "\<forall>e \<in> set km. fst e \<noteq> kw0 \<longrightarrow> count_matches flags_gi (word_re (fst e)) lc = 0"
    using Cons.prems(2) by simp
  note IH = Cons.IH[OF dist rest]
  have sk: "\<And>kk dd sc. score_keyword lc (kk, dd) sc =
      (if count_matches flags_gi (word_re kk) lc > 0
       then fold (add_score (count_matches flags_gi (word_re kk) lc)) dd sc else sc)"
    by (simp add: score_keyword_def Let_def)
  show ?case
  proof (cases "k = kw0")
    case True
    then have notin: "kw0 \<notin> fst ` set km" using knotin by simp
    show ?thesis
      using True notin e by (simp add: IH sk map_get_def)
  next
    case False
    then have z: "count_matches flags_gi (word_re k) lc = 0"
      using Cons.prems(2) e by simp
    have mg: "map_get ((k, ds) # km) kw0 [] = map_get km kw0 []"
      using False by (simp add: map_get_def)
    show ?thesis
      using False z e by (simp add: IH sk mg)
  qed
qed

lemma domainScores_single:
  assumes others: "list_all (\<lambda>kw. kw = kw0 \<or> count_matches flags_gi (word_re kw) (toLowerCase c) = 0)
                     (concat (map keywords_of DOMAINS))"
      and pos: "count_matches flags_gi (word_re kw0) (toLowerCase c) = n" "n > 0"
      and ds: "concat (map (\<lambda>d. replicate (count_list (keywords_of d) kw0) d) DOMAINS) = ds" "ds \<noteq> []"
  shows "domainScores c = fold (add_score n) ds []"
proof -
  have a: "\<forall>e \<in> set getAllKeywords. fst e \<noteq> kw0 \<longrightarrow>
             count_matches flags_gi (word_re (fst e)) (toLowerCase c) = 0"
  proof (intro ballI impI)
    fix e assume "e \<in> set getAllKeywords" "fst e \<noteq> kw0"
    then have "fst e \<in> set (concat (map keywords_of DOMAINS))"
      using keys_getAllKeywords by blast
    with others \<open>fst e \<noteq> kw0\<close> show "count_matches flags_gi (word_re (fst e)) (toLowerCase c) = 0"
      unfolding list_all_iff by blast
  qed
  have mg: "map_get getAllKeywords kw0 [] = ds"
    using ds(1) by (simp add: map_get_getAllKeywords)
  have key: "kw0 \<in> fst ` set getAllKeywords"
  proof (rule ccontr)
    assume "kw0 \<notin> fst ` set getAllKeywords"
    then have "map_of getAllKeywords kw0 = None" by (simp add: map_of_eq_None_iff)
    then have "map_get getAllKeywords kw0 [] = []" by (simp add: map_get_def)
    with mg ds(2) show False by simp
  qed
  show ?thesis
    unfolding domainScores_def
    using fold_score_keyword_single[OF distinct_getAllKeywords a, of "[]"] key pos mg by simp
qed

lemma ai_others:
  "list_all (\<lambda>kw. kw = ''ai'' \<or> count_matches flags_gi (word_re kw) (toLowerCase ''ai'') = 0)
                     (concat (map keywords_of DOMAINS))"
  by code_simp

lemma ai_count: "count_matches flags_gi (word_re ''ai'') (toLowerCase ''ai'') = 1"
  by code_simp

lemma ai_domains: "concat (map (\<lambda>d. replicate (count_list (keywords_of d) ''ai'') d) DOMAINS) = [''agents'']"
  by code_simp

lemma domainScores_ai: "domainScores ''ai'' = [(''agents'', 1)]"
  using domainScores_single[OF ai_others ai_count _ ai_domains]
  by (simp add: add_score_def map_get_def)

lemma content_ai: "detectDomainFromContent ''ai'' =
   \<lparr>domain = Some ''agents'', confidence = 123/200, method' = m_keywords, alternativeDomains = []\<rparr>"
  by (simp add: detectDomainFromContent_def sortedDomains_def domainScores_ai sort_desc_def content_confidence_def Let_def)


lemma detectDomainFromContent_none:
  "domain (detectDomainFromContent c) = None \<Longrightarrow> confidence (detectDomainFromContent c) = 0"
  by (auto simp: detectDomainFromContent_def Let_def split: list.splits prod.splits)

subsection \<open>Resolution\<close>

text \<open>
  Claim C4, as amended. When the path phase yields confidence below 0.9 and non-empty
  content is supplied: if the path phase found no domain, the content detection is the
  result; if the content detection has strictly higher confidence than the path
  detection, it is the result, with the path detection put in front of its alternates;
  otherwise the path detection is returned unchanged, its alternates empty. When neither
  phase matches, the result has domain null and confidence 0.
\<close>

theorem detectDomain_resolution:
  "(confidence (detectDomainFromPath P filePath docsRoot) < 9/10 \<and> c \<noteq> [] \<longrightarrow>
      detectDomain P filePath (Some c) docsRoot =
        (case domain (detectDomainFromPath P filePath docsRoot) of
           None \<Rightarrow> detectDomainFromContent c
         | Some pd \<Rightarrow>
             if confidence (detectDomainFromContent c) >
                confidence (detectDomainFromPath P filePath docsRoot)
             then (detectDomainFromContent c)
                    \<lparr>alternativeDomains :=
                       (pd, confidence (detectDomainFromPath P filePath docsRoot)) #
                       alternativeDomains (detectDomainFromContent c)\<rparr>
             else detectDomainFromPath P filePath docsRoot)) \<and>
   (alternativeDomains (detectDomainFromPath P filePath docsRoot) = []) \<and>
   (domain (detectDomainFromPath P filePath docsRoot) = None \<and>
    (\<forall>c'. cont = Some c' \<longrightarrow> domain (detectDomainFromContent c') = None) \<longrightarrow>
      domain (detectDomain P filePath cont docsRoot) = None \<and>
      confidence (detectDomain P filePath cont docsRoot) = 0)"
proof (intro conjI impI)
  assume h: "confidence (detectDomainFromPath P filePath docsRoot) < 9/10 \<and> c \<noteq> []"
  show "detectDomain P filePath (Some c) docsRoot =
        (case domain (detectDomainFromPath P filePath docsRoot) of
           None \<Rightarrow> detectDomainFromContent c
         | Some pd \<Rightarrow>
             if confidence (detectDomainFromContent c) >
                confidence (detectDomainFromPath P filePath docsRoot)
             then (detectDomainFromContent c)
                    \<lparr>alternativeDomains :=
                       (pd, confidence (detectDomainFromPath P filePath docsRoot)) #
                       alternativeDomains (detectDomainFromContent c)\<rparr>
             else detectDomainFromPath P filePath docsRoot)"
  proof (cases "domain (detectDomainFromPath P filePath docsRoot)")
    case None
    with h show ?thesis by (simp add: detectDomain_def Let_def truthy_def)
  next
    case (Some pd)
    then have "pd \<noteq> []" by (intro valid_nonempty detectDomainFromPath_valid)
    with h Some show ?thesis by (simp add: detectDomain_def Let_def truthy_def)
  qed
next
  show "alternativeDomains (detectDomainFromPath P filePath docsRoot) = []"
    by (rule detectDomainFromPath_alternatives)
next
  assume h: "domain (detectDomainFromPath P filePath docsRoot) = None \<and>
    (\<forall>c'. cont = Some c' \<longrightarrow> domain (detectDomainFromContent c') = None)"
  then have p: "detectDomainFromPath P filePath docsRoot =
       \<lparr>domain = None, confidence = 0, method' = m_path, alternativeDomains = []\<rparr>"
    by (intro detectDomainFromPath_none) simp
  show "domain (detectDomain P filePath cont docsRoot) = None"
    using h by (auto simp: detectDomain_def p Let_def truthy_def split: option.splits)
  show "confidence (detectDomain P filePath cont docsRoot) = 0"
    using h by (auto simp: detectDomain_def p Let_def truthy_def detectDomainFromContent_none
                     split: option.splits)
qed

lemma example_path_api:
  "detectDomainFromPath (posix ''/w'' []) ''guides/api/notes.md'' ''.'' =
     \<lparr>domain = Some ''api'', confidence = 8/10, method' = m_path, alternativeDomains = []\<rparr>"
  by code_simp

lemma example_path_none:
  "detectDomainFromPath (posix ''/w'' []) ''notes/readme.md'' ''.'' =
     \<lparr>domain = None, confidence = 0, method' = m_path, alternativeDomains = []\<rparr>"
  by code_simp

theorem detectDomain_resolution_witness:
  "detectDomain (posix ''/w'' []) ''guides/api/notes.md'' (Some ''ai'') ''.'' =
     \<lparr>domain = Some ''api'', confidence = 8/10, method' = m_path, alternativeDomains = []\<rparr> \<and>
   detectDomain (posix ''/w'' []) ''notes/readme.md'' (Some ''ai'') ''.'' =
     \<lparr>domain = Some ''agents'', confidence = 123/200, method' = m_keywords,
      alternativeDomains = []\<rparr> \<and>
   domain (detectDomain (posix ''/w'' []) ''notes/readme.md'' None ''.'') = None \<and>
   confidence (detectDomain (posix ''/w'' []) ''notes/readme.md'' None ''.'') = 0"
  using detectDomain_resolution [of "posix ''/w'' []" "''guides/api/notes.md''" "''.''" "''ai''" None]
        detectDomain_resolution [of "posix ''/w'' []" "''notes/readme.md''" "''.''" "''ai''" None]
  by (simp add: example_path_api example_path_none content_ai)

text \<open>
  Claim C4 as stated fails where the path detection wins: for a file under
  \<^verbatim>\<open>guides/api/\<close> (path confidence 0.8) whose content is the word \<^verbatim>\<open>ai\<close> (content
  detection: \<^verbatim>\<open>agents\<close>, confidence 0.615), the result is the path detection, and the
  losing domain \<^verbatim>\<open>agents\<close> is not among its alternates.
\<close>

theorem detectDomain_loser_not_recorded:
  "confidence (detectDomainFromPath (posix ''/w'' []) ''guides/api/notes.md'' ''.'') < 9/10 \<and>
   domain (detectDomainFromContent ''ai'') = Some ''agents'' \<and>
   domain (detectDomain (posix ''/w'' []) ''guides/api/notes.md'' (Some ''ai'') ''.'') = Some ''api'' \<and>
   ''agents'' \<notin> fst ` set (alternativeDomains
       (detectDomain (posix ''/w'' []) ''guides/api/notes.md'' (Some ''ai'') ''.''))"
  by (simp add: detectDomain_def example_path_api content_ai Let_def truthy_def)

section \<open>Properties of tier classification\<close>

lemma fold_winner_step:
  "fold (winner_step sc) ts (m0, w0) =
     (let m = fold max (map sc ts) m0
      in (m, if m > m0 then the (List.find (\<lambda>t. sc t = m) ts) else w0))"
proof (induction ts arbitrary: m0 w0)
  case Nil
  then show ?case by simp
next
  case (Cons t ts)
  have ge: "\<And>xs (a::nat). a \<le> fold max xs a"
  proof -
    fix xs and a :: nat
    show "a \<le> fold max xs a"
      by (induction xs arbitrary: a) (auto intro: order_trans[OF max.cobounded2])
  qed
  show ?case
  proof (cases "sc t > m0")
    case True
    have m1: "max (sc t) m0 = sc t" using True by simp
    have g: "sc t \<le> fold max (map sc ts) (sc t)" by (rule ge)
    have step: "winner_step sc t (m0, w0) = (sc t, t)"
      using True by (simp add: winner_step_def)
    show ?thesis
      using True g by (auto simp: step Cons.IH Let_def m1)
  next
    case False
    have m1: "max (sc t) m0 = m0" using False by simp
    have g: "m0 \<le> fold max (map sc ts) m0" by (rule ge)
    have step: "winner_step sc t (m0, w0) = (m0, w0)"
      using False by (simp add: winner_step_def)
    show ?thesis
      using False g by (auto simp: step Cons.IH Let_def m1)
  qed
qed

lemma fold_max_Max: "fold max (map sc TIERS) (0::nat) = Max (sc ` set TIERS)"
proof -
  have "Max (sc ` set TIERS) =
      max (sc guide) (max (sc standard) (max (sc example) (max (sc reference) (sc admin))))"
    by (simp add: TIERS_def)
  moreover have "fold max (map sc TIERS) 0 =
      max (sc admin) (max (sc reference) (max (sc example) (max (sc standard) (sc guide))))"
    by (simp add: TIERS_def)
  ultimately show ?thesis by linarith
qed

lemma winningTier_first_max:
  "List.find (\<lambda>t. sc t = Max (sc ` set TIERS)) TIERS = Some (winningTier sc)"
proof -
  let ?m = "Max (sc ` set TIERS)"
  have fin: "finite (sc ` set TIERS)" by simp
  have "?m \<in> sc ` set TIERS" by (rule Max_in) (simp_all add: TIERS_def)
  then obtain t0 where t0: "t0 \<in> set TIERS" "sc t0 = ?m" by auto
  then obtain w where w: "List.find (\<lambda>t. sc t = ?m) TIERS = Some w"
    by (cases "List.find (\<lambda>t. sc t = ?m) TIERS") (auto simp: find_None_iff)
  have wt: "winningTier sc = (if ?m > 0 then the (List.find (\<lambda>t. sc t = ?m) TIERS) else guide)"
    by (simp add: winningTier_def fold_winner_step Let_def fold_max_Max)
  show ?thesis
  proof (cases "?m > 0")
    case True
    then show ?thesis using wt w by simp
  next
    case False
    then have "?m = 0" by simp
    moreover have "sc guide \<le> ?m" by (rule Max_ge) (simp_all add: TIERS_def)
    ultimately have "sc guide = ?m" by simp
    then have "List.find (\<lambda>t. sc t = ?m) TIERS = Some guide" by (simp add: TIERS_def)
    with wt False show ?thesis by simp
  qed
qed

lemma fold_score_tier:
  "fold (score_tier c) TIERS (\<lambda>_. 0) t = indicator_score c t + heading_score c t + size_score c t"
  by (cases t) (simp_all add: TIERS_def score_tier_def)

lemma tier_scores_eq:
  "tier_scores c t =
     indicator_score c t + heading_score c t + size_score c t +
     (case t of
        guide \<Rightarrow> (if of_nat (listItems c) / of_nat (line_count c) > (3/10 :: rat) then 10 else 0)
      | standard \<Rightarrow> (if of_nat (listItems c) / of_nat (line_count c) > (3/10 :: rat) then 8 else 0)
      | example \<Rightarrow> (if codeRatio c > 5/10 then 15 else 0)
      | reference \<Rightarrow> (if tables c > 5 then 15 else 0)
      | admin \<Rightarrow> (if warnings c > 2 then 10 else 0))"
  by (cases t)
     (simp_all add: tier_scores_def warning_boost_def table_boost_def list_boost_def
        code_boost_def fold_score_tier)

lemma sortedScores_shape:
  "\<exists>a b rest. sortedScores sc = a # b # rest \<and> a = Max (sc ` set TIERS) \<and> b \<le> a"
proof -
  let ?xs = "sort (map sc TIERS)"
  have len: "length ?xs = 5" by (simp add: TIERS_def)
  have srt: "sorted ?xs" by simp
  have set: "set ?xs = sc ` set TIERS" by simp
  obtain a b rest where r: "rev ?xs = a # b # rest"
    using len by (cases "rev ?xs"; cases "tl (rev ?xs)") (auto simp: length_Suc_conv)
  have sr: "sorted (rev (rev ?xs))" using srt by simp
  then have "sorted (rev (a # b # rest))" using r by simp
  then have ba: "b \<le> a" and all: "\<forall>x \<in> set (b # rest). x \<le> a"
    by (auto simp: sorted_append)
  have "set (a # b # rest) = sc ` set TIERS" using r set by (metis set_rev)
  then have "Max (sc ` set TIERS) = Max (set (a # b # rest))" by simp
  also have "\<dots> = a" using all by (intro Max_eqI) auto
  finally show ?thesis using r ba by (auto simp: sortedScores_def)
qed


lemma scores_standard_example: "map (tier_scores ''standard example'') TIERS = [0, 2, 2, 0, 0]"
  by code_simp

lemma scores_heading_example: "map (tier_scores ''# Example'') TIERS = [5, 0, 7, 0, 0]"
  by code_simp

text \<open>
  Claim C6, as amended. The score of a tier is 2 per whole-word indicator match, 5 per
  heading-pattern match, 10 when the size in KB lies in the tier's range, plus the boosts of
  the global heuristics; \<open>classifyTier\<close> returns the first tier, in the order guide,
  standard, example, reference, admin, whose score is the highest. So among tiers that tie
  for the highest score the earliest registered one wins, which is guide exactly when guide
  is one of them (as it is when every score is 0).
\<close>

theorem classifyTier_winner:
  "scores (classifyTier c) = tier_scores c \<and>
   (\<forall>t. tier_scores c t =
      indicator_score c t + heading_score c t + size_score c t +
      (case t of
         guide \<Rightarrow> (if of_nat (listItems c) / of_nat (line_count c) > (3/10 :: rat) then 10 else 0)
       | standard \<Rightarrow> (if of_nat (listItems c) / of_nat (line_count c) > (3/10 :: rat) then 8 else 0)
       | example \<Rightarrow> (if codeRatio c > 5/10 then 15 else 0)
       | reference \<Rightarrow> (if tables c > 5 then 15 else 0)
       | admin \<Rightarrow> (if warnings c > 2 then 10 else 0))) \<and>
   List.find (\<lambda>t. tier_scores c t = Max (tier_scores c ` set TIERS)) TIERS =
     Some (tier (classifyTier c))"
proof -
  have "List.find (\<lambda>t. tier_scores c t = Max (tier_scores c ` set TIERS)) TIERS =
     Some (tier (classifyTier c))"
    using winningTier_first_max [of "tier_scores c"] by (simp add: classifyTier_def)
  moreover have "scores (classifyTier c) = tier_scores c"
    by (simp add: classifyTier_def)
  ultimately show ?thesis
    using tier_scores_eq by blast
qed

theorem classifyTier_winner_witness:
  "map (tier_scores ''# Example'') TIERS = [5, 0, 7, 0, 0] \<and>
   tier (classifyTier ''# Example'') = example"
proof -
  have s: "tier_scores ''# Example'' guide = 5" "tier_scores ''# Example'' standard = 0"
    "tier_scores ''# Example'' example = 7" "tier_scores ''# Example'' reference = 0"
    "tier_scores ''# Example'' admin = 0"
    using scores_heading_example by (simp_all add: TIERS_def)
  have m: "Max (tier_scores ''# Example'' ` set TIERS) = 7"
    by (simp add: TIERS_def s)
  have "List.find (\<lambda>t. tier_scores ''# Example'' t = 7) TIERS = Some example"
    by (simp add: TIERS_def s)
  then have "tier (classifyTier ''# Example'') = example"
    using classifyTier_winner [of "''# Example''", THEN conjunct2, THEN conjunct2]
    by (simp add: m)
  then show ?thesis using scores_heading_example by simp
qed

text \<open>
  Claim C6 as stated fails on a tie that guide is not part of: for the text
  \<^verbatim>\<open>standard example\<close> the tiers standard and example both score 2, guide scores 0,
  and the returned tier is standard.
\<close>

theorem classifyTier_tie_not_guide:
  "map (scores (classifyTier ''standard example'')) TIERS = [0, 2, 2, 0, 0] \<and>
   tier (classifyTier ''standard example'') = standard \<and>
   tier (classifyTier ''standard example'') \<noteq> guide"
proof -
  have s: "tier_scores ''standard example'' guide = 0" "tier_scores ''standard example'' standard = 2"
    "tier_scores ''standard example'' example = 2" "tier_scores ''standard example'' reference = 0"
    "tier_scores ''standard example'' admin = 0"
    using scores_standard_example by (simp_all add: TIERS_def)
  have "winningTier (tier_scores ''standard example'') = standard"
    by (simp add: winningTier_def TIERS_def winner_step_def s)
  then show ?thesis
    using scores_standard_example by (simp add: classifyTier_def)
qed

text \<open>
  Claim C7. With \<open>topScore\<close> and \<open>secondScore\<close> the two largest of the five scores (the first
  two of the scores sorted in decreasing order, so \<open>topScore\<close> is the maximum), the
  confidence is \<open>min (0.5 + 0.3 * ((topScore - secondScore) / topScore) + 0.2 * (topScore / 100)) 0.95\<close>
  when \<open>topScore > 0\<close> and exactly \<open>0.5\<close> when \<open>topScore = 0\<close>; it always lies in
  \<open>[0.5, 0.95]\<close>.
\<close>

theorem classifyTier_confidence:
  "tier_confidence (classifyTier c) =
     (let topScore = sortedScores (tier_scores c) ! 0;
          secondScore = sortedScores (tier_scores c) ! 1
      in if topScore > 0
         then min (5/10 + 3/10 * ((of_nat topScore - of_nat secondScore) / of_nat topScore)
                        + 2/10 * (of_nat topScore / 100)) (95/100)
         else 5/10) \<and>
   sortedScores (tier_scores c) ! 0 = Max (tier_scores c ` set TIERS) \<and>
   5/10 \<le> tier_confidence (classifyTier c) \<and> tier_confidence (classifyTier c) \<le> 95/100"
proof -
  obtain a b rest where s: "sortedScores (tier_scores c) = a # b # rest"
      and a: "a = Max (tier_scores c ` set TIERS)" and ba: "b \<le> a"
    using sortedScores_shape by blast
  have conf: "tier_confidence (classifyTier c) =
      (if a > 0 then min (5/10 + 3/10 * ((of_nat a - of_nat b) / of_nat a) + 2/10 * (of_nat a / 100)) (95/100)
       else 5/10)"
    by (simp add: classifyTier_def tier_confidence_of_def s Let_def algebra_simps)
  have lower: "a > 0 \<Longrightarrow> (5/10::rat) \<le> 5/10 + 3/10 * ((of_nat a - of_nat b) / of_nat a) + 2/10 * (of_nat a / 100)"
  proof -
    assume "a > 0"
    have "(0::rat) \<le> 3/10 * ((of_nat a - of_nat b) / of_nat a)"
      using ba by (intro mult_nonneg_nonneg divide_nonneg_nonneg) auto
    moreover have "(0::rat) \<le> 2/10 * (of_nat a / 100)" by simp
    ultimately show ?thesis by linarith
  qed
  show ?thesis
    using lower a by (auto simp: conf s Let_def min_def)
qed


theorem classifyTier_confidence_witness:
  "tier_confidence (classifyTier ''standard example'') = 63/125 \<and>
   tier_confidence (classifyTier ''# Example'') = 2099/3500"
proof -
  have a: "sortedScores (tier_scores ''standard example'') = [2, 2, 0, 0, 0]"
    unfolding sortedScores_def scores_standard_example by code_simp
  have b: "sortedScores (tier_scores ''# Example'') = [7, 5, 0, 0, 0]"
    unfolding sortedScores_def scores_heading_example by code_simp
  show ?thesis
    using classifyTier_confidence [of "''standard example''"]
          classifyTier_confidence [of "''# Example''"]
    by (simp add: a b)
qed

section \<open>Properties of the link graph\<close>










lemma second_pass_readable:
  "second_pass P d files st = Some st' \<Longrightarrow> \<forall>f \<in> set files. readFile P f \<noteq> None"
  by (induction files arbitrary: st) (auto split: option.splits)










subsection \<open>Degrees and orphans\<close>

lemma set_update_subset: "set (AList.update k v al) \<subseteq> insert (k, v) (set al)"
  by (induction al) auto

lemma degrees_ok_add_node:
  assumes "degrees_ok ns []"
  shows "degrees_ok (add_node P d f ns) []"
proof -
  let ?k = "relative P d f"
  let ?v = "\<lparr>node_id = ?k, node_path = ?k, node_domain = domain (detectDomainFromPath P f d),
             inDegree = 0, outDegree = 0\<rparr>"
  have mem: "\<forall>kn \<in> set (AList.update ?k ?v ns). kn = (?k, ?v) \<or> kn \<in> set ns"
    using set_update_subset[of ?k ?v ns] by blast
  have "distinct (map fst (AList.update ?k ?v ns))"
    using assms by (simp add: degrees_ok_def distinct_update)
  moreover have "\<forall>kn \<in> set (AList.update ?k ?v ns).
      node_path (snd kn) = fst kn \<and> inDegree (snd kn) = 0 \<and> outDegree (snd kn) = 0"
  proof
    fix kn assume "kn \<in> set (AList.update ?k ?v ns)"
    with mem have "kn = (?k, ?v) \<or> kn \<in> set ns" by blast
    then show "node_path (snd kn) = fst kn \<and> inDegree (snd kn) = 0 \<and> outDegree (snd kn) = 0"
      using assms by (auto simp: degrees_ok_def list_all_iff)
  qed
  ultimately show ?thesis
    by (simp add: degrees_ok_def add_node_def Let_def list_all_iff)
qed

lemma degrees_ok_first_pass_gen: "degrees_ok ns [] \<Longrightarrow> degrees_ok (fold (add_node P d) files ns) []"
  by (induction files arbitrary: ns) (auto simp: degrees_ok_add_node)

lemma degrees_ok_first_pass: "degrees_ok (first_pass P d files) []"
proof -
  have "degrees_ok [] []" by (simp add: degrees_ok_def)
  from degrees_ok_first_pass_gen[OF this] show ?thesis by (simp add: first_pass_def)
qed

lemma map_entry_distinct:
  "distinct (map fst al) \<Longrightarrow>
     AList.map_entry k f al = map (\<lambda>kv. (fst kv, if fst kv = k then f (snd kv) else snd kv)) al"
proof (induction al)
  case Nil
  then show ?case by simp
next
  case (Cons p al)
  show ?case
  proof (cases "fst p = k")
    case True
    then have "k \<notin> fst ` set al" using Cons.prems by auto
    then have "map (\<lambda>kv. (fst kv, if fst kv = k then f (snd kv) else snd kv)) al = al"
      by (induction al) auto
    with True show ?thesis by (cases p) simp
  next
    case False
    with Cons show ?thesis by (cases p) simp
  qed
qed

lemma degrees_ok_bump:
  assumes "degrees_ok ns es"
  shows "degrees_ok (AList.map_entry t inc_in (AList.map_entry rel inc_out ns))
           (es @ [\<lparr>source = rel, target = t, linkText = x, edge_lineNumber = y\<rparr>])"
proof -
  have dist: "distinct (map fst ns)" using assms by (simp add: degrees_ok_def)
  have dist': "distinct (map fst (AList.map_entry rel inc_out ns))"
    using dist by (simp add: distinct_map_entry)
  have eq: "AList.map_entry t inc_in (AList.map_entry rel inc_out ns) =
      map (\<lambda>kv. (fst kv, (if fst kv = t then inc_in else id)
                           ((if fst kv = rel then inc_out else id) (snd kv)))) ns"
    by (simp only: map_entry_distinct[OF dist']) (simp add: map_entry_distinct[OF dist])
  have keys: "map fst (map (\<lambda>kv. (fst kv, (if fst kv = t then inc_in else id)
                           ((if fst kv = rel then inc_out else id) (snd kv)))) ns) = map fst ns"
    by (induction ns) auto
  show ?thesis
    unfolding eq degrees_ok_def keys
    using assms
    by (auto simp: degrees_ok_def list_all_iff inc_in_def inc_out_def)
qed

lemma degrees_ok_add_edge:
  assumes "degrees_ok (fst st) (snd st)"
  shows "degrees_ok (fst (add_edge P d rel dir link st)) (snd (add_edge P d rel dir link st))"
proof -
  obtain ns es where st: "st = (ns, es)" by (cases st)
  then have ok: "degrees_ok ns es" using assms by simp
  show ?thesis
    using ok degrees_ok_bump[OF ok]
    by (simp add: st add_edge_def split: option.splits)
qed

lemma degrees_ok_fold_add_edge:
  "degrees_ok (fst st) (snd st) \<Longrightarrow>
     degrees_ok (fst (fold (add_edge P d rel dir) links st)) (snd (fold (add_edge P d rel dir) links st))"
  by (induction links arbitrary: st) (auto simp: degrees_ok_add_edge)

lemma degrees_ok_second_pass:
  "second_pass P d files st = Some st' \<Longrightarrow> degrees_ok (fst st) (snd st) \<Longrightarrow>
     degrees_ok (fst st') (snd st')"
proof (induction files arbitrary: st)
  case Nil
  then show ?case by simp
next
  case (Cons f0 files)
  from Cons.prems(1) obtain c where c: "readFile P f0 = Some c"
    by (cases "readFile P f0") auto
  let ?st1 = "fold (add_edge P d (relative P d f0) (dirname P f0)) (extractLinks c) st"
  have sp: "second_pass P d files ?st1 = Some st'" using Cons.prems(1) c by simp
  have "degrees_ok (fst ?st1) (snd ?st1)" using Cons.prems(2) by (rule degrees_ok_fold_add_edge)
  from Cons.IH[OF sp this] show ?case .
qed

lemma buildLinkGraph_degrees:
  assumes "buildLinkGraph P d = Some g"
  shows "distinct (map node_path (nodes g)) \<and>
         (\<forall>n \<in> set (nodes g).
            inDegree n = length (filter (\<lambda>e. target e = node_path n) (edges g)) \<and>
            outDegree n = length (filter (\<lambda>e. source e = node_path n) (edges g)))"
proof -
  let ?files = "findMarkdownFiles P d"
  from assms obtain ns es where sp: "second_pass P d ?files (first_pass P d ?files, []) = Some (ns, es)"
    and g: "g = \<lparr>nodes = map snd ns, edges = es\<rparr>"
    by (auto simp: buildLinkGraph_def Let_def split: option.splits)
  have ok: "degrees_ok ns es"
    using degrees_ok_second_pass[OF sp] degrees_ok_first_pass by simp
  have h: "map (node_path \<circ> snd) ns = map fst ns"
    using ok by (auto simp: degrees_ok_def list_all_iff)
  have dn: "distinct (map (node_path \<circ> snd) ns)"
    unfolding h using ok by (simp add: degrees_ok_def)
  show ?thesis
    using ok dn by (auto simp: g degrees_ok_def list_all_iff)
qed

lemma graph_demo_graph:
  "buildLinkGraph (posix ''/w'' graph_demo) ''/docs'' =
     Some \<lparr>nodes =
             [\<lparr>node_id = ''security/auth.md'', node_path = ''security/auth.md'',
               node_domain = Some ''security'', inDegree = 0, outDegree = 1\<rparr>,
              \<lparr>node_id = ''api/ref.md'', node_path = ''api/ref.md'',
               node_domain = Some ''api'', inDegree = 1, outDegree = 0\<rparr>],
           edges =
             [\<lparr>source = ''security/auth.md'', target = ''api/ref.md'', linkText = ''API'',
               edge_lineNumber = 1\<rparr>]\<rparr>"
  by code_simp

lemma graph_demo_names:
  "file_name ''security/auth.md'' = ''auth.md''" "file_name ''api/ref.md'' = ''ref.md''"
  by code_simp+

text \<open>
  Claim C8. In a built graph the node paths are distinct and the \<open>inDegree\<close> of a node is the
  number of edges that end at it. \<open>findOrphanFiles\<close> returns paths of nodes of the graph, and
  the path of a node is among them if and only if the node's \<open>inDegree\<close> is 0 and its file
  name is none of \<^verbatim>\<open>INDEX.md\<close>, \<^verbatim>\<open>REGISTRY.md\<close>, \<^verbatim>\<open>README.md\<close>.
\<close>

theorem findOrphanFiles_iff:
  assumes "buildLinkGraph P docsPath = Some g"
  shows "\<exists>orphans. findOrphanFiles P docsPath = Some orphans \<and>
           set orphans \<subseteq> node_path ` set (nodes g) \<and>
           (\<forall>n \<in> set (nodes g).
              (node_path n \<in> set orphans \<longleftrightarrow>
                 inDegree n = 0 \<and>
                 file_name (node_path n) \<notin> {''INDEX.md'', ''REGISTRY.md'', ''README.md''}) \<and>
              inDegree n = length (filter (\<lambda>e. target e = node_path n) (edges g)))"
proof -
  let ?ex = "{''INDEX.md'', ''REGISTRY.md'', ''README.md''}"
  let ?os = "map node_path (filter (\<lambda>n. file_name (node_path n) \<notin> set [''INDEX.md'', ''REGISTRY.md'', ''README.md''])
                          (filter (\<lambda>n. inDegree n = 0) (nodes g)))"
  have f: "findOrphanFiles P docsPath = Some ?os"
    using assms by (simp add: findOrphanFiles_def)
  have dist: "distinct (map node_path (nodes g))"
    and deg: "\<forall>n \<in> set (nodes g). inDegree n = length (filter (\<lambda>e. target e = node_path n) (edges g))"
    using buildLinkGraph_degrees[OF assms] by auto
  have inj: "inj_on node_path (set (nodes g))"
    using dist by (simp add: distinct_map)
  have iff: "\<forall>n \<in> set (nodes g). (node_path n \<in> set ?os \<longleftrightarrow> inDegree n = 0 \<and> file_name (node_path n) \<notin> ?ex)"
  proof
    fix n assume n: "n \<in> set (nodes g)"
    show "node_path n \<in> set ?os \<longleftrightarrow> inDegree n = 0 \<and> file_name (node_path n) \<notin> ?ex"
    proof
      assume "node_path n \<in> set ?os"
      then obtain m where m: "m \<in> set (nodes g)" "inDegree m = 0" "file_name (node_path m) \<notin> ?ex"
        "node_path m = node_path n" by auto
      then have "m = n" using inj n by (auto dest: inj_onD)
      with m show "inDegree n = 0 \<and> file_name (node_path n) \<notin> ?ex" by simp
    next
      assume "inDegree n = 0 \<and> file_name (node_path n) \<notin> ?ex"
      with n show "node_path n \<in> set ?os" by auto
    qed
  qed
  have sub: "set ?os \<subseteq> node_path ` set (nodes g)" by auto
  show ?thesis using f iff deg sub by blast
qed

theorem findOrphanFiles_iff_witness:
  "\<exists>orphans. findOrphanFiles (posix ''/w'' graph_demo) ''/docs'' = Some orphans \<and>
     ''security/auth.md'' \<in> set orphans \<and> ''api/ref.md'' \<notin> set orphans"
  using findOrphanFiles_iff [OF graph_demo_graph]
  by (auto simp: graph_demo_names)

section \<open>Properties of the link checker\<close>

lemma check_link_broken:
  "brokenLinks (check_link P d fl rel dir link r) =
     brokenLinks r @ (if link_broken P d dir link then [broken_entry rel link] else [])"
  by (simp add: check_link_def link_broken_def Let_def split: option.splits prod.splits)

lemma fold_check_link_broken:
  "brokenLinks (fold (check_link P d fl rel dir) links r) =
     brokenLinks r @ map (broken_entry rel) (filter (link_broken P d dir) links)"
  by (induction links arbitrary: r) (simp_all add: check_link_broken)

lemma check_file_broken:
  "brokenLinks (check_file P d fl r) = brokenLinks r @ file_broken P d fl"
  by (simp add: check_file_def file_broken_def fold_check_link_broken split: option.splits)

lemma fold_check_file_broken:
  "brokenLinks (fold (check_file P d) files r) = brokenLinks r @ concat (map (file_broken P d) files)"
  by (induction files arbitrary: r) (simp_all add: check_file_broken)

lemma checkLinks_broken:
  "brokenLinks (checkLinks P opts) =
     concat (map (file_broken P (opt_docsPath opts)) (checked_files P opts))"
  by (simp add: checkLinks_def Let_def fold_check_file_broken empty_result_def)











section \<open>Properties of cycle detection\<close>

lemma dedup_subseq: "subseq (dedup seen cs) cs"
  by (induction cs arbitrary: seen) auto

lemma dedup_keys: "cycle_key ` set (dedup seen cs) = cycle_key ` set cs - seen"
  by (induction cs arbitrary: seen) auto

lemma dedup_distinct: "distinct (map cycle_key (dedup seen cs))"
proof (induction cs arbitrary: seen)
  case Nil
  then show ?case by simp
next
  case (Cons c cs)
  have "cycle_key c \<notin> cycle_key ` set (dedup (insert (cycle_key c) seen) cs)"
    by (simp add: dedup_keys)
  with Cons show ?case by auto
qed

lemma sort_two: "sort [A, B :: string] = sort [B, A]"
  by (cases "A \<le> B"; cases "B \<le> A") auto


text \<open>
  Claim C9. For the graph of two distinct nodes \<open>A\<close> and \<open>B\<close> with the edges \<open>A \<rightarrow> B\<close> and
  \<open>B \<rightarrow> A\<close>, cycle detection returns exactly one cycle, \<open>[A, B]\<close>. The key of a cycle is its
  member paths sorted and joined, so the same cycle found from \<open>B\<close> has the same key and
  is removed as a duplicate. When the two files are present and the internal links of each
  resolve to the other, the link checker reports no broken link.
\<close>

theorem mutual_reference_one_cycle:
  assumes ne: "A \<noteq> B"
      and files: "checked_files P opts = [fa, fb]"
      and read: "readFile P fa = Some ca" "readFile P fb = Some cb"
      and ab: "\<forall>l \<in> set (extractLinks ca). isInternal l \<longrightarrow>
                 resolveLink P (url l) (dirname P fa) (opt_docsPath opts) = fb"
      and ba: "\<forall>l \<in> set (extractLinks cb). isInternal l \<longrightarrow>
                 resolveLink P (url l) (dirname P fb) (opt_docsPath opts) = fa"
      and present: "pathExists P fa" "pathExists P fb"
  shows "detectCircularDependencies [(A, [B]), (B, [A])] = [[A, B]] \<and>
         cycle_key [A, B] = cycle_key [B, A] \<and>
         dedup {} [[A, B], [B, A]] = [[A, B]] \<and>
         brokenLinks (checkLinks P opts) = []"
proof -
  have one: "detectCircularDependencies [(A, [B]), (B, [A])] = [[A, B]]"
    using ne by (simp add: detectCircularDependencies_def dfs_roots_def imports_of_def Let_def)
  have key: "cycle_key [A, B] = cycle_key [B, A]"
    unfolding cycle_key_def using sort_two[of A B] by simp
  have dd: "dedup {} [[A, B], [B, A]] = [[A, B]]"
    using key by simp
  have fa: "file_broken P (opt_docsPath opts) fa = []"
    using ab present by (auto simp: file_broken_def read link_broken_def filter_empty_conv)
  have fb: "file_broken P (opt_docsPath opts) fb = []"
    using ba present by (auto simp: file_broken_def read link_broken_def filter_empty_conv)
  have "brokenLinks (checkLinks P opts) = []"
    by (simp add: checkLinks_broken files fa fb)
  with one key dd show ?thesis by simp
qed

lemma cycle_demo_files:
  "checked_files (posix ''/w'' cycle_demo) \<lparr>opt_docsPath = ''/docs'', opt_domain = None\<rparr> =
     [''/docs/a.md'', ''/docs/b.md'']"
  by code_simp

lemma cycle_demo_read:
  "readFile (posix ''/w'' cycle_demo) ''/docs/a.md'' = Some ''see [B](b.md)''"
  "readFile (posix ''/w'' cycle_demo) ''/docs/b.md'' = Some ''back to [A](./a.md#top)''"
  by code_simp+

lemma cycle_demo_links:
  "list_all (\<lambda>l. resolveLink (posix ''/w'' cycle_demo) (url l)
                   (dirname (posix ''/w'' cycle_demo) ''/docs/a.md'') ''/docs'' = ''/docs/b.md'')
            (extractLinks ''see [B](b.md)'')"
  "list_all (\<lambda>l. resolveLink (posix ''/w'' cycle_demo) (url l)
                   (dirname (posix ''/w'' cycle_demo) ''/docs/b.md'') ''/docs'' = ''/docs/a.md'')
            (extractLinks ''back to [A](./a.md#top)'')"
  "pathExists (posix ''/w'' cycle_demo) ''/docs/a.md''"
  "pathExists (posix ''/w'' cycle_demo) ''/docs/b.md''"
  by code_simp+

lemma cycle_demo_graph:
  "map_option edges (buildLinkGraph (posix ''/w'' cycle_demo) ''/docs'') =
     Some [\<lparr>source = ''a.md'', target = ''b.md'', linkText = ''B'', edge_lineNumber = 1\<rparr>,
           \<lparr>source = ''b.md'', target = ''a.md'', linkText = ''A'', edge_lineNumber = 1\<rparr>]"
  by code_simp

theorem mutual_reference_one_cycle_witness:
  "detectCircularDependencies [(''a.md'', [''b.md'']), (''b.md'', [''a.md''])] = [[''a.md'', ''b.md'']] \<and>
   brokenLinks (checkLinks (posix ''/w'' cycle_demo) \<lparr>opt_docsPath = ''/docs'', opt_domain = None\<rparr>) = [] \<and>
   map_option edges (buildLinkGraph (posix ''/w'' cycle_demo) ''/docs'') =
     Some [\<lparr>source = ''a.md'', target = ''b.md'', linkText = ''B'', edge_lineNumber = 1\<rparr>,
           \<lparr>source = ''b.md'', target = ''a.md'', linkText = ''A'', edge_lineNumber = 1\<rparr>]"
proof -
  have ne: "''a.md'' \<noteq> ''b.md''" by simp
  have ab: "\<forall>l \<in> set (extractLinks ''see [B](b.md)''). isInternal l \<longrightarrow>
      resolveLink (posix ''/w'' cycle_demo) (url l) (dirname (posix ''/w'' cycle_demo) ''/docs/a.md'')
        (opt_docsPath \<lparr>opt_docsPath = ''/docs'', opt_domain = None\<rparr>) = ''/docs/b.md''"
    using cycle_demo_links(1) by (simp add: list_all_iff)
  have ba: "\<forall>l \<in> set (extractLinks ''back to [A](./a.md#top)''). isInternal l \<longrightarrow>
      resolveLink (posix ''/w'' cycle_demo) (url l) (dirname (posix ''/w'' cycle_demo) ''/docs/b.md'')
        (opt_docsPath \<lparr>opt_docsPath = ''/docs'', opt_domain = None\<rparr>) = ''/docs/a.md''"
    using cycle_demo_links(2) by (simp add: list_all_iff)
  from mutual_reference_one_cycle [OF ne cycle_demo_files cycle_demo_read ab ba cycle_demo_links(3,4)]
  show ?thesis by (simp add: cycle_demo_graph)
qed


text \<open>
  Claim C10. Cycle detection returns at most 10 cycles: the cycles found, in discovery
  order, with every cycle dropped whose key an earlier one has, cut to the first 10.
\<close>

theorem detectCircularDependencies_limit:
  "length (detectCircularDependencies g) \<le> 10 \<and>
   detectCircularDependencies g = take 10 (dedup {} (cycles (dfs_roots g))) \<and>
   subseq (dedup {} (cycles (dfs_roots g))) (cycles (dfs_roots g)) \<and>
   distinct (map cycle_key (dedup {} (cycles (dfs_roots g)))) \<and>
   cycle_key ` set (dedup {} (cycles (dfs_roots g))) = cycle_key ` set (cycles (dfs_roots g))"
  by (simp add: detectCircularDependencies_def dedup_subseq dedup_distinct dedup_keys)

lemma hub_cycles:
  "cycles (dfs_roots hub) =
     [[''h'', ''a''], [''h'', ''b''], [''h'', ''c''], [''h'', ''d''], [''h'', ''e''], [''h'', ''f''],
      [''h'', ''g''], [''h'', ''i''], [''h'', ''j''], [''h'', ''k''], [''h'', ''l'']]"
  by code_simp

lemma hub_dedup:
  "dedup {} [[''h'', ''a''], [''h'', ''b''], [''h'', ''c''], [''h'', ''d''], [''h'', ''e''], [''h'', ''f''],
      [''h'', ''g''], [''h'', ''i''], [''h'', ''j''], [''h'', ''k''], [''h'', ''l'']] =
   [[''h'', ''a''], [''h'', ''b''], [''h'', ''c''], [''h'', ''d''], [''h'', ''e''], [''h'', ''f''],
      [''h'', ''g''], [''h'', ''i''], [''h'', ''j''], [''h'', ''k''], [''h'', ''l'']]"
  by code_simp

theorem detectCircularDependencies_limit_witness:
  "length (cycles (dfs_roots hub)) = 11 \<and>
   detectCircularDependencies hub =
     [[''h'', ''a''], [''h'', ''b''], [''h'', ''c''], [''h'', ''d''], [''h'', ''e''], [''h'', ''f''],
      [''h'', ''g''], [''h'', ''i''], [''h'', ''j''], [''h'', ''k'']]"
proof -
  have a: "detectCircularDependencies hub = take 10 (dedup {} (cycles (dfs_roots hub)))"
    by (rule detectCircularDependencies_limit [of hub, THEN conjunct2, THEN conjunct1])
  have b: "take 10 (dedup {} (cycles (dfs_roots hub))) =
     [[''h'', ''a''], [''h'', ''b''], [''h'', ''c''], [''h'', ''d''], [''h'', ''e''], [''h'', ''f''],
      [''h'', ''g''], [''h'', ''i''], [''h'', ''j''], [''h'', ''k'']]"
    unfolding hub_cycles hub_dedup by simp
  have c: "length (cycles (dfs_roots hub)) = 11"
    unfolding hub_cycles by simp
  have d: "detectCircularDependencies hub =
     [[''h'', ''a''], [''h'', ''b''], [''h'', ''c''], [''h'', ''d''], [''h'', ''e''], [''h'', ''f''],
      [''h'', ''g''], [''h'', ''i''], [''h'', ''j''], [''h'', ''k'']]"
    by (rule trans [OF a b])
  show ?thesis
    by (rule conjI [OF c d])
qed

end
